theory Spec2Isabelle
  imports Main "HOL-Library.Word"
begin

unbundle bit_operations_syntax

section \<open>Go values used by the MongoDB wire-protocol parser\<close>

text \<open>
  The development embeds \<^verbatim>\<open>protos/mongodb/mongodb_parser.go\<close>. Go's \<^verbatim>\<open>int\<close> is taken
  at its width on 64-bit targets (amd64, arm64): 64 bits. Every conversion the source
  writes is written out below; cursor positions and lengths, which the code only ever
  increases from 0 by non-negative amounts, are natural numbers.
\<close>

type_synonym byte = "8 word"

text \<open>
  The error values of the parser: \<^verbatim>\<open>errors.New("No byte to read")\<close>,
  \<^verbatim>\<open>errors.New("cstring not finished")\<close>, an error of \<^verbatim>\<open>bson.Unmarshal\<close> and an error
  of \<^verbatim>\<open>json.Marshal\<close>. A Go \<^verbatim>\<open>error\<close> is a \<open>goerror option\<close>, \<open>None\<close> for \<^verbatim>\<open>nil\<close>.
\<close>

datatype goerror = NoByteToRead | CStringNotFinished | UnmarshalError | MarshalError

text \<open>
  A call either returns or ends in a run-time panic (index or slice bounds out of range).
  State reached through pointers (the decoder, the message) is returned next to the
  outcome, since the writes made before a panic stay visible to a recovering caller.
\<close>

datatype 'a run = Panics | Returns 'a

text \<open>\<^verbatim>\<open>int(x)\<close> for \<^verbatim>\<open>x uint32\<close> and for \<^verbatim>\<open>x uint64\<close>, with a 64-bit \<^verbatim>\<open>int\<close>.\<close>

definition int_of_uint32 :: "32 word \<Rightarrow> int" where
  "int_of_uint32 x = sint (ucast x :: 64 word)"

definition int_of_uint64 :: "64 word \<Rightarrow> int" where
  "int_of_uint64 x = sint x"

text \<open>\<^verbatim>\<open>string(b)\<close> for a byte slice: a Go string is its bytes, a \<open>char\<close> is a byte.\<close>

definition gostring :: "byte list \<Rightarrow> string" where
  "gostring b = map (\<lambda>x. char_of (unat x)) b"

text \<open>\<^verbatim>\<open>strings.HasSuffix\<close>: \<^verbatim>\<open>len(s) >= len(suffix) && s[len(s)-len(suffix):] == suffix\<close>.\<close>

definition HasSuffix :: "string \<Rightarrow> string \<Rightarrow> bool" where
  "HasSuffix s suffix = (length s \<ge> length suffix \<and> drop (length s - length suffix) s = suffix)"

subsection \<open>The external collaborators: the document decoder and the formatter\<close>

text \<open>
  \<^verbatim>\<open>bson.Unmarshal\<close> (labix.org/v2/mgo/bson) and \<^verbatim>\<open>json.Marshal\<close> (encoding/json) are not code
  of this repository. The parser is modelled for any decoder \<open>U\<close> and any formatter \<open>J\<close>,
  which are parameters of every function that calls them. A decoded value is a generic
  tree; a \<^verbatim>\<open>bson.M\<close> is a map from keys to values, kept as an association list in the
  document's order and read through \<open>map_of\<close>; the \<^verbatim>\<open>nil\<close> map is \<open>None\<close>.
\<close>

datatype bval = BNull | BInt int | BStr string | BDoc "(string \<times> bval) list" | BArr "bval list"

type_synonym bsonM = "(string \<times> bval) list option"

type_synonym unmarshal = "byte list \<Rightarrow> (string \<times> bval) list option"

type_synonym marshal = "bval \<Rightarrow> string option"

text \<open>\<^verbatim>\<open>m[key]\<close> with the \<^verbatim>\<open>present\<close> flag; reading the \<^verbatim>\<open>nil\<close> map finds nothing.\<close>

definition lookupM :: "bsonM \<Rightarrow> string \<Rightarrow> bval option" where
  "lookupM m key = (case m of None \<Rightarrow> None | Some kvs \<Rightarrow> map_of kvs key)"

text \<open>A \<^verbatim>\<open>bson.M\<close> passed as \<^verbatim>\<open>interface{}\<close>; \<^verbatim>\<open>json.Marshal\<close> sees the \<^verbatim>\<open>nil\<close> map as null.\<close>

definition ifaceM :: "bsonM \<Rightarrow> bval" where
  "ifaceM m = (case m of None \<Rightarrow> BNull | Some kvs \<Rightarrow> BDoc kvs)"

section \<open>The data model\<close>

text \<open>
  \<^verbatim>\<open>decoder{in []byte; i int}\<close>. A Go slice is a window on a backing array: \<open>d_in\<close> holds
  the \<^verbatim>\<open>len(d.in)\<close> elements of the slice and \<open>d_spare\<close> the bytes of the backing array
  between \<^verbatim>\<open>len(d.in)\<close> and \<^verbatim>\<open>cap(d.in)\<close>, which indexing cannot reach and reslicing can.
\<close>

record decoder =
  d_in :: "byte list"
  d_spare :: "byte list"
  d_i :: nat

datatype evalue = EInt int | EStr string | EStrs "string list"

text \<open>
  Modelled from the spec: the types \<^verbatim>\<open>MongodbMessage\<close> and \<^verbatim>\<open>MongodbStream\<close>, declared
  outside the parser's file. The records hold the fields the parser reads and writes,
  which are the fields of the spec's Message. \<open>data\<close> and \<open>data_spare\<close> are the elements
  and the spare capacity of the slice \<^verbatim>\<open>s.data\<close>.
\<close>

record MongodbMessage =
  messageLength :: int
  requestId :: int
  responseTo :: int
  opCode :: string
  IsResponse :: bool
  ExpectsResponse :: bool
  "method" :: string
  error :: string
  event :: "string \<rightharpoonup> evalue"

record MongodbStream =
  data :: "byte list"
  data_spare :: "byte list"
  message :: MongodbMessage

text \<open>
  Modelled from the spec: the table \<^verbatim>\<open>OpCodes\<close>, a \<^verbatim>\<open>map[int]string\<close> declared outside the
  parser's file; the spec's Opcode Table lists its eight entries.
\<close>

definition OpCodes :: "int \<rightharpoonup> string" where
  "OpCodes = [1 \<mapsto> ''OP_REPLY'', 1000 \<mapsto> ''OP_MSG'', 2001 \<mapsto> ''OP_UPDATE'',
              2002 \<mapsto> ''OP_INSERT'', 2004 \<mapsto> ''OP_QUERY'', 2005 \<mapsto> ''OP_GET_MORE'',
              2006 \<mapsto> ''OP_DELETE'', 2007 \<mapsto> ''OP_KILL_CURSORS'']"

section \<open>The primitive field reader\<close>

definition newDecoder :: "byte list \<Rightarrow> byte list \<Rightarrow> decoder" where
  "newDecoder elems spare = \<lparr>d_in = elems, d_spare = spare, d_i = 0\<rparr>"

text \<open>
  \<^verbatim>\<open>d.in = d.in[:length]\<close>: the bound of a reslice is the capacity, and the bytes cut off
  stay in the backing array.
\<close>

definition truncate :: "decoder \<Rightarrow> int \<Rightarrow> decoder run" where
  "truncate d len =
     (if 0 \<le> len \<and> nat len \<le> length (d_in d) + length (d_spare d)
      then Returns (d\<lparr>d_in := take (nat len) (d_in d @ d_spare d),
                       d_spare := drop (nat len) (d_in d @ d_spare d)\<rparr>)
      else Panics)"

text \<open>
  \<^verbatim>\<open>readBytes\<close>: the cursor is advanced before the check, and stays advanced when the
  check fails. The slice returned lies inside \<^verbatim>\<open>len(d.in)\<close>.
\<close>

definition readBytes :: "decoder \<Rightarrow> nat \<Rightarrow> decoder \<times> byte list \<times> goerror option" where
  "readBytes d len =
     (let start = d_i d;
          d = d\<lparr>d_i := d_i d + len\<rparr>
      in if d_i d > length (d_in d) then (d, [], Some NoByteToRead)
         else (d, take len (drop start (d_in d)), None))"

definition readInt32 :: "decoder \<Rightarrow> decoder \<times> int \<times> goerror option" where
  "readInt32 d =
     (let (d, b, err) = readBytes d 4
      in if err \<noteq> None then (d, 0, err)
         else (d, int_of_uint32 (push_bit 0 (ucast (b ! 0)) OR
                                 push_bit 8 (ucast (b ! 1)) OR
                                 push_bit 16 (ucast (b ! 2)) OR
                                 push_bit 24 (ucast (b ! 3))), None))"

definition readInt64 :: "decoder \<Rightarrow> decoder \<times> int \<times> goerror option" where
  "readInt64 d =
     (let (d, b, err) = readBytes d 8
      in if err \<noteq> None then (d, 0, err)
         else (d, int_of_uint64 (push_bit 0 (ucast (b ! 0)) OR
                                 push_bit 8 (ucast (b ! 1)) OR
                                 push_bit 16 (ucast (b ! 2)) OR
                                 push_bit 24 (ucast (b ! 3)) OR
                                 push_bit 32 (ucast (b ! 4)) OR
                                 push_bit 40 (ucast (b ! 5)) OR
                                 push_bit 48 (ucast (b ! 6)) OR
                                 push_bit 56 (ucast (b ! 7))), None))"

text \<open>
  The scan of \<^verbatim>\<open>readCStr\<close>: \<^verbatim>\<open>for ; end != l; end++ { if d.in[end] == 0 { break } }\<close>.
  When the cursor is already past the view the test \<^verbatim>\<open>end != l\<close> holds and \<^verbatim>\<open>d.in[end]\<close>
  indexes out of range.
\<close>

function cstrScan :: "byte list \<Rightarrow> nat \<Rightarrow> nat run" where
  "cstrScan xs e =
     (if e \<noteq> length xs
      then (if e < length xs
            then (if xs ! e = 0 then Returns e else cstrScan xs (e + 1))
            else Panics)
      else Returns e)"
  by pat_completeness auto
termination
  by (relation "measure (\<lambda>(xs, e). length xs - e)") auto

declare cstrScan.simps [simp del]

definition readCStr :: "decoder \<Rightarrow> decoder \<times> (string \<times> goerror option) run" where
  "readCStr d =
     (let start = d_i d;
          l = length (d_in d)
      in case cstrScan (d_in d) start of
           Panics \<Rightarrow> (d, Panics)
         | Returns e \<Rightarrow>
             (let d = d\<lparr>d_i := e + 1\<rparr>
              in if d_i d > l then (d, Returns ('''', Some CStringNotFinished))
                 else (d, Returns (gostring (take (e - start) (drop start (d_in d))), None))))"

text \<open>
  \<^verbatim>\<open>readDocument\<close>: the error of \<^verbatim>\<open>readInt32\<close> is overwritten, the length it returns (0
  when it failed) moves the cursor, and \<^verbatim>\<open>d.in[start:d.i]\<close> is a reslice, bounded by the
  capacity of \<^verbatim>\<open>d.in\<close> and not by its length.
\<close>

definition readDocument :: "unmarshal \<Rightarrow> decoder \<Rightarrow> decoder \<times> (bsonM \<times> goerror option) run" where
  "readDocument U d =
     (let start = d_i d;
          (d, documentLength, err) = readInt32 d;
          d = d\<lparr>d_i := nat (int start + documentLength)\<rparr>
      in if start \<le> d_i d \<and> d_i d \<le> length (d_in d) + length (d_spare d)
         then (case U (take (d_i d - start) (drop start (d_in d @ d_spare d))) of
                 None \<Rightarrow> (d, Returns (None, Some UnmarshalError))
               | Some documentMap \<Rightarrow> (d, Returns (Some documentMap, None)))
         else (d, Panics))"

text \<open>\<^verbatim>\<open>json.Marshal\<close> returns no bytes with an error, so the string is empty then.\<close>

definition doc2str :: "marshal \<Rightarrow> bval \<Rightarrow> string \<times> goerror option" where
  "doc2str J documentMap =
     (case J documentMap of None \<Rightarrow> ('''', Some MarshalError) | Some document \<Rightarrow> (document, None))"

text \<open>\<^verbatim>\<open>readDocumentStr\<close>: the second \<^verbatim>\<open>:=\<close> assigns the same \<^verbatim>\<open>err\<close> again.\<close>

definition readDocumentStr ::
  "unmarshal \<Rightarrow> marshal \<Rightarrow> decoder \<Rightarrow> decoder \<times> (string \<times> goerror option) run" where
  "readDocumentStr U J d =
     (case readDocument U d of
        (d, Panics) \<Rightarrow> (d, Panics)
      | (d, Returns (documentMap, err)) \<Rightarrow>
          (let (document, err) = doc2str J (ifaceM documentMap)
           in (d, Returns (document, err))))"

section \<open>The per-opcode field extractors\<close>

text \<open>
  Every extractor assigns each read's error to the one variable \<^verbatim>\<open>err\<close> and tests it once,
  after the last read. It returns the message it has written to next to its outcome.
\<close>

text \<open>
  The loop of \<^verbatim>\<open>opReplyParse\<close>, \<^verbatim>\<open>for i := 0; i < numberReturned; i++\<close>, with the loop
  counter \<open>k\<close>. State: the decoder, the message (for \<^verbatim>\<open>m.error\<close>), \<^verbatim>\<open>documents\<close>, \<^verbatim>\<open>err\<close>.
\<close>

function opReplyLoop ::
  "unmarshal \<Rightarrow> marshal \<Rightarrow> int \<Rightarrow> int \<Rightarrow> decoder \<Rightarrow> MongodbMessage \<Rightarrow> string list \<Rightarrow>
   goerror option \<Rightarrow> (decoder \<times> MongodbMessage) \<times> (string list \<times> goerror option) run" where
  "opReplyLoop U J numberReturned k d m documents err =
     (if k < numberReturned
      then (case readDocument U d of
              (d, Panics) \<Rightarrow> ((d, m), Panics)
            | (d, Returns (document, err)) \<Rightarrow>
                (let (m, err) =
                       (if k = 0
                        then (case lookupM document ''$err'' of
                                Some mongoError \<Rightarrow>
                                  (let (s, err) = doc2str J mongoError in (m\<lparr>error := s\<rparr>, err))
                              | None \<Rightarrow> (m, err))
                        else (m, err));
                     (s, err) = doc2str J (ifaceM document)
                 in opReplyLoop U J numberReturned (k + 1) d m (documents[nat k := s]) err))
      else ((d, m), Returns (documents, err)))"
  by pat_completeness auto
termination
  by (relation "measure (\<lambda>(U, J, numberReturned, k, d, m, documents, err). nat (numberReturned - k))") auto

declare opReplyLoop.simps [simp del]

text \<open>\<^verbatim>\<open>make([]string, numberReturned)\<close> panics on a negative length.\<close>

definition opReplyParse ::
  "unmarshal \<Rightarrow> marshal \<Rightarrow> decoder \<Rightarrow> MongodbMessage \<Rightarrow> MongodbMessage \<times> (bool \<times> bool) run" where
  "opReplyParse U J d m =
     (let (d, flags, err) = readInt32 d;
          (d, cursorId, err) = readInt64 d;
          m = m\<lparr>event := (event m)(''cursorId'' \<mapsto> EInt cursorId)\<rparr>;
          (d, startingFrom, err) = readInt32 d;
          m = m\<lparr>event := (event m)(''startingFrom'' \<mapsto> EInt startingFrom)\<rparr>;
          (d, numberReturned, err) = readInt32 d;
          m = m\<lparr>event := (event m)(''numberReturned'' \<mapsto> EInt numberReturned)\<rparr>
      in if numberReturned < 0 then (m, Panics)
         else (case opReplyLoop U J numberReturned 0 d m (replicate (nat numberReturned) []) err of
                 ((d, m), Panics) \<Rightarrow> (m, Panics)
               | ((d, m), Returns (documents, err)) \<Rightarrow>
                   (let m = m\<lparr>event := (event m)(''documents'' \<mapsto> EStrs documents)\<rparr>
                    in if err \<noteq> None then (m, Returns (False, False))
                       else (m, Returns (True, True)))))"

definition opMsgParse :: "decoder \<Rightarrow> MongodbMessage \<Rightarrow> MongodbMessage \<times> (bool \<times> bool) run" where
  "opMsgParse d m =
     (case readCStr d of
        (d, Panics) \<Rightarrow> (m, Panics)
      | (d, Returns (s, err)) \<Rightarrow>
          (let m = m\<lparr>event := (event m)(''message'' \<mapsto> EStr s)\<rparr>
           in if err \<noteq> None then (m, Returns (False, False))
              else (m, Returns (True, True))))"

definition opUpdateParse ::
  "unmarshal \<Rightarrow> marshal \<Rightarrow> decoder \<Rightarrow> MongodbMessage \<Rightarrow> MongodbMessage \<times> (bool \<times> bool) run" where
  "opUpdateParse U J d m =
     (let (d, reserved, err) = readInt32 d
      in case readCStr d of
           (d, Panics) \<Rightarrow> (m, Panics)
         | (d, Returns (s, err)) \<Rightarrow>
             (let m = m\<lparr>event := (event m)(''fullCollectionName'' \<mapsto> EStr s)\<rparr>;
                  (d, flags, err) = readInt32 d
              in case readDocumentStr U J d of
                   (d, Panics) \<Rightarrow> (m, Panics)
                 | (d, Returns (s, err)) \<Rightarrow>
                     (let m = m\<lparr>event := (event m)(''selector'' \<mapsto> EStr s)\<rparr>
                      in case readDocumentStr U J d of
                           (d, Panics) \<Rightarrow> (m, Panics)
                         | (d, Returns (s, err)) \<Rightarrow>
                             (let m = m\<lparr>event := (event m)(''update'' \<mapsto> EStr s)\<rparr>
                              in if err \<noteq> None then (m, Returns (False, False))
                                 else (m, Returns (True, True))))))"

definition opInsertParse :: "decoder \<Rightarrow> MongodbMessage \<Rightarrow> MongodbMessage \<times> (bool \<times> bool) run" where
  "opInsertParse d m =
     (let (d, flags, err) = readInt32 d
      in case readCStr d of
           (d, Panics) \<Rightarrow> (m, Panics)
         | (d, Returns (s, err)) \<Rightarrow>
             (let m = m\<lparr>event := (event m)(''fullCollectionName'' \<mapsto> EStr s)\<rparr>
              in if err \<noteq> None then (m, Returns (False, False))
                 else (m, Returns (True, True))))"

text \<open>
  The loop of \<^verbatim>\<open>opQueryParse\<close> over \<^verbatim>\<open>UserCommands\<close>: every command that is a key of the
  query assigns \<^verbatim>\<open>m.method\<close>, and the loop has no \<^verbatim>\<open>break\<close>.
\<close>

fun userCommandLoop :: "bsonM \<Rightarrow> string list \<Rightarrow> MongodbMessage \<Rightarrow> MongodbMessage" where
  "userCommandLoop query [] m = m"
| "userCommandLoop query (command # rest) m =
     userCommandLoop query rest
       (if lookupM query command \<noteq> None then m\<lparr>method := command\<rparr> else m)"

text \<open>
  \<^verbatim>\<open>UserCommands\<close>, a \<^verbatim>\<open>[]string\<close> declared outside the parser's file, is the parameter
  \<open>UserCommands\<close> of \<open>opQueryParse\<close>.
\<close>

text \<open>
  The statements of \<^verbatim>\<open>opQueryParse\<close> that follow the optional read of
  \<^verbatim>\<open>returnFieldsSelector\<close>: the classification, the text of the query, whose error
  replaces every earlier one, and the test of \<^verbatim>\<open>err\<close>. Both branches of the \<^verbatim>\<open>if\<close> before
  them continue here.
\<close>

definition opQueryFinish ::
  "marshal \<Rightarrow> string list \<Rightarrow> string \<Rightarrow> bsonM \<Rightarrow> MongodbMessage \<Rightarrow>
   MongodbMessage \<times> (bool \<times> bool) run" where
  "opQueryFinish J UserCommands fullCollectionName query m =
     (let m = (if HasSuffix fullCollectionName ''.$cmd''
               then userCommandLoop query UserCommands (m\<lparr>method := ''otherCommand''\<rparr>)
               else m\<lparr>method := ''find''\<rparr>);
          (s, err) = doc2str J (ifaceM query);
          m = m\<lparr>event := (event m)(''query'' \<mapsto> EStr s)\<rparr>
      in if err \<noteq> None then (m, Returns (False, False))
         else (m, Returns (True, True)))"

definition opQueryParse ::
  "unmarshal \<Rightarrow> marshal \<Rightarrow> string list \<Rightarrow> decoder \<Rightarrow> MongodbMessage \<Rightarrow>
   MongodbMessage \<times> (bool \<times> bool) run" where
  "opQueryParse U J UserCommands d m =
     (let (d, flags, err) = readInt32 d
      in case readCStr d of
           (d, Panics) \<Rightarrow> (m, Panics)
         | (d, Returns (fullCollectionName, err)) \<Rightarrow>
             (let m = m\<lparr>event := (event m)(''fullCollectionName'' \<mapsto> EStr fullCollectionName)\<rparr>;
                  (d, numberToSkip, err) = readInt32 d;
                  m = m\<lparr>event := (event m)(''numberToSkip'' \<mapsto> EInt numberToSkip)\<rparr>;
                  (d, numberToReturn, err) = readInt32 d;
                  m = m\<lparr>event := (event m)(''numberToReturn'' \<mapsto> EInt numberToReturn)\<rparr>
              in case readDocument U d of
                   (d, Panics) \<Rightarrow> (m, Panics)
                 | (d, Returns (query, err)) \<Rightarrow>
                     (if d_i d < length (d_in d)
                      then (case readDocumentStr U J d of
                              (d, Panics) \<Rightarrow> (m, Panics)
                            | (d, Returns (s, err)) \<Rightarrow>
                                opQueryFinish J UserCommands fullCollectionName query
                                  (m\<lparr>event := (event m)(''returnFieldsSelector'' \<mapsto> EStr s)\<rparr>))
                      else opQueryFinish J UserCommands fullCollectionName query m)))"

definition opGetMoreParse :: "decoder \<Rightarrow> MongodbMessage \<Rightarrow> MongodbMessage \<times> (bool \<times> bool) run" where
  "opGetMoreParse d m =
     (let (d, reserved, err) = readInt32 d
      in case readCStr d of
           (d, Panics) \<Rightarrow> (m, Panics)
         | (d, Returns (s, err)) \<Rightarrow>
             (let m = m\<lparr>event := (event m)(''fullCollectionName'' \<mapsto> EStr s)\<rparr>;
                  (d, numberToReturn, err) = readInt32 d;
                  m = m\<lparr>event := (event m)(''numberToReturn'' \<mapsto> EInt numberToReturn)\<rparr>;
                  (d, cursorId, err) = readInt64 d;
                  m = m\<lparr>event := (event m)(''cursorId'' \<mapsto> EInt cursorId)\<rparr>
              in if err \<noteq> None then (m, Returns (False, False))
                 else (m, Returns (True, True))))"

definition opDeleteParse ::
  "unmarshal \<Rightarrow> marshal \<Rightarrow> decoder \<Rightarrow> MongodbMessage \<Rightarrow> MongodbMessage \<times> (bool \<times> bool) run" where
  "opDeleteParse U J d m =
     (let (d, reserved, err) = readInt32 d
      in case readCStr d of
           (d, Panics) \<Rightarrow> (m, Panics)
         | (d, Returns (s, err)) \<Rightarrow>
             (let m = m\<lparr>event := (event m)(''fullCollectionName'' \<mapsto> EStr s)\<rparr>;
                  (d, flags, err) = readInt32 d
              in case readDocumentStr U J d of
                   (d, Panics) \<Rightarrow> (m, Panics)
                 | (d, Returns (s, err)) \<Rightarrow>
                     (let m = m\<lparr>event := (event m)(''selector'' \<mapsto> EStr s)\<rparr>
                      in if err \<noteq> None then (m, Returns (False, False))
                         else (m, Returns (True, True)))))"

definition opKillCursorsParse :: "decoder \<Rightarrow> MongodbMessage \<Rightarrow> MongodbMessage \<times> (bool \<times> bool) run" where
  "opKillCursorsParse d m = (m, Returns (True, True))"

section \<open>The message framer and the opcode dispatcher\<close>

text \<open>
  The \<^verbatim>\<open>switch s.message.opCode\<close> of \<^verbatim>\<open>mongodbMessageParser\<close> with the \<^verbatim>\<open>return false, false\<close>
  that follows it: the assignments of each case and the call of its extractor.
\<close>

definition opCodeSwitch ::
  "unmarshal \<Rightarrow> marshal \<Rightarrow> string list \<Rightarrow> decoder \<Rightarrow> MongodbMessage \<Rightarrow>
   MongodbMessage \<times> (bool \<times> bool) run" where
  "opCodeSwitch U J UserCommands d m =
     (if opCode m = ''OP_REPLY''
      then opReplyParse U J d (m\<lparr>IsResponse := True\<rparr>)
      else if opCode m = ''OP_MSG''
      then opMsgParse d (m\<lparr>method := ''msg''\<rparr>)
      else if opCode m = ''OP_UPDATE''
      then opUpdateParse U J d (m\<lparr>method := ''update''\<rparr>)
      else if opCode m = ''OP_INSERT''
      then opInsertParse d (m\<lparr>method := ''insert''\<rparr>)
      else if opCode m = ''OP_QUERY''
      then opQueryParse U J UserCommands d (m\<lparr>ExpectsResponse := True\<rparr>)
      else if opCode m = ''OP_GET_MORE''
      then opGetMoreParse d (m\<lparr>method := ''getMore'', ExpectsResponse := True\<rparr>)
      else if opCode m = ''OP_DELETE''
      then opDeleteParse U J d (m\<lparr>method := ''delete''\<rparr>)
      else if opCode m = ''OP_KILL_CURSORS''
      then opKillCursorsParse d (m\<lparr>method := ''killCursors''\<rparr>)
      else (m, Returns (False, False)))"

text \<open>
  \<^verbatim>\<open>mongodbMessageParser\<close> returns \<^verbatim>\<open>(ok, complete)\<close>. It never assigns \<^verbatim>\<open>s.data\<close>; the
  stream it returns differs from \<open>s\<close> in \<^verbatim>\<open>s.message\<close> only. The errors of the three
  header reads after the length are assigned and never tested.
\<close>

definition mongodbMessageParser ::
  "unmarshal \<Rightarrow> marshal \<Rightarrow> string list \<Rightarrow> MongodbStream \<Rightarrow> MongodbStream \<times> (bool \<times> bool) run" where
  "mongodbMessageParser U J UserCommands s =
     (let d = newDecoder (data s) (data_spare s);
          (d, len, err) = readInt32 d
      in if err \<noteq> None then (s, Returns (True, False))
         else if len > int (length (data s)) then (s, Returns (True, False))
         else (case truncate d len of
                 Panics \<Rightarrow> (s, Panics)
               | Returns d \<Rightarrow>
                   (let m = (message s)\<lparr>messageLength := len\<rparr>;
                        (d, v, err) = readInt32 d;
                        m = m\<lparr>requestId := v\<rparr>;
                        (d, v, err) = readInt32 d;
                        m = m\<lparr>responseTo := v\<rparr>;
                        (d, opc, err) = readInt32 d
                    in case OpCodes opc of
                         None \<Rightarrow> (s\<lparr>message := m\<rparr>, Returns (False, False))
                       | Some name \<Rightarrow>
                           (let m = m\<lparr>opCode := name, IsResponse := False,
                                      ExpectsResponse := False, event := Map.empty\<rparr>;
                                (m, r) = opCodeSwitch U J UserCommands d m
                            in (s\<lparr>message := m\<rparr>, r)))))"

section \<open>Reference readings of the wire format\<close>

text \<open>
  The first four bytes of \<open>b\<close> read as a little-endian unsigned integer, by arithmetic
  and without bit operations, and the two's-complement signed reading of the same bytes.
\<close>

definition le_uint32 :: "byte list \<Rightarrow> int" where
  "le_uint32 b = uint (b ! 0) + 256 * uint (b ! 1) + 65536 * uint (b ! 2) + 16777216 * uint (b ! 3)"

definition le_sint32 :: "byte list \<Rightarrow> int" where
  "le_sint32 b = (if le_uint32 b < 2 ^ 31 then le_uint32 b else le_uint32 b - 2 ^ 32)"

text \<open>The zero value of \<^verbatim>\<open>MongodbMessage\<close>, the message of a fresh stream.\<close>

definition zeroMessage :: MongodbMessage where
  "zeroMessage = \<lparr>messageLength = 0, requestId = 0, responseTo = 0, opCode = [],
     IsResponse = False, ExpectsResponse = False, method = [], error = [], event = Map.empty\<rparr>"

text \<open>
  A frame condition: the message \<open>fst x\<close> that a call leaves agrees with the message \<open>m\<close>
  it was given on the observation \<open>f\<close>.
\<close>

definition keeps :: "(MongodbMessage \<Rightarrow> 'b) \<Rightarrow> MongodbMessage \<Rightarrow> MongodbMessage \<times> 'c \<Rightarrow> bool" where
  "keeps f m x = (f (fst x) = f m)"

section \<open>Instances of the external collaborators\<close>

text \<open>
  The theorems below hold for every decoder \<open>U\<close> and every formatter \<open>J\<close>. Closed
  examples need one of each. \<open>bsonSubset\<close> decodes the BSON documents whose elements are
  all 32-bit integers (type 16) or strings (type 2): a length prefix that counts the
  whole document, the elements, a final zero byte. On these documents it returns what
  \<^verbatim>\<open>bson.Unmarshal\<close> does; it rejects every other byte string, among them the ones
  \<^verbatim>\<open>bson.Unmarshal\<close> rejects as corrupted (no final zero byte, a length that is not the
  length of the bytes).
\<close>

fun bsonElements :: "nat \<Rightarrow> byte list \<Rightarrow> (string \<times> bval) list option" where
  "bsonElements 0 b = None"
| "bsonElements (Suc n) [] = None"
| "bsonElements (Suc n) (t # r) =
     (if t = 0 then (if r = [] then Some [] else None)
      else (let name = takeWhile (\<lambda>x. x \<noteq> 0) r;
                v = drop (length name + 1) r
            in if length r \<le> length name \<or> length v < 4 then None
               else if t = 16
               then map_option ((#) (gostring name, BInt (le_sint32 v))) (bsonElements n (drop 4 v))
               else if t = 2
               then (let l = nat (le_uint32 v)
                     in if l < 1 \<or> length v < 4 + l \<or> v ! (3 + l) \<noteq> 0 then None
                        else map_option
                               ((#) (gostring name, BStr (gostring (take (l - 1) (drop 4 v)))))
                               (bsonElements n (drop (4 + l) v)))
               else None))"

definition bsonSubset :: unmarshal where
  "bsonSubset b =
     (if 5 \<le> length b \<and> le_uint32 b = int (length b) then bsonElements (length b) (drop 4 b)
      else None)"

text \<open>
  \<open>jsonSubset\<close> writes null, integers, strings without characters that JSON escapes, and
  documents of such values whose keys are listed in ascending order the way
  \<^verbatim>\<open>json.Marshal\<close> does; a string value keeps its quotes (character 34). On arrays it
  reports an error.
\<close>

fun decimal :: "nat \<Rightarrow> string" where
  "decimal n =
     (if n < 10 then [char_of (48 + n)] else decimal (n div 10) @ [char_of (48 + n mod 10)])"

declare decimal.simps [simp del]

fun jsonSubset :: marshal and jsonMembers :: "(string \<times> bval) list \<Rightarrow> string option" where
  "jsonSubset BNull = Some ''null''"
| "jsonSubset (BInt k) = Some (if k < 0 then CHR ''-'' # decimal (nat (- k)) else decimal (nat k))"
| "jsonSubset (BStr s) = Some ([CHR 0x22] @ s @ [CHR 0x22])"
| "jsonSubset (BDoc kvs) = map_option (\<lambda>t. ''{'' @ t @ ''}'') (jsonMembers kvs)"
| "jsonSubset (BArr vs) = None"
| "jsonMembers [] = Some []"
| "jsonMembers ((k, v) # kvs) =
     (case jsonSubset v of
        None \<Rightarrow> None
      | Some t \<Rightarrow>
          (case jsonMembers kvs of
             None \<Rightarrow> None
           | Some ts \<Rightarrow>
               Some ([CHR 0x22] @ k @ [CHR 0x22] @ '':'' @ t @ (if kvs = [] then [] else '','' @ ts))))"

section \<open>The classification of a query, in the words of the specification\<close>

text \<open>
  The method the specification gives an OP_QUERY message: on the command namespace, the
  first top-level key of the query document, in the document's order, that is a known
  command, else "otherCommand"; on any other collection, "find".
\<close>

definition claimedMethod :: "string list \<Rightarrow> string \<Rightarrow> (string \<times> bval) list \<Rightarrow> string" where
  "claimedMethod known fullCollectionName query =
     (if HasSuffix fullCollectionName ''.$cmd''
      then (case find (\<lambda>k. k \<in> set known) (map fst query) of
              Some k \<Rightarrow> k
            | None \<Rightarrow> ''otherCommand'')
      else ''find'')"

text \<open>
  The method the loop of \<^verbatim>\<open>opQueryParse\<close> leaves: the last entry of \<^verbatim>\<open>UserCommands\<close>, in the
  order of that list, that is a key of the query.
\<close>

definition lastCommand :: "string list \<Rightarrow> (string \<times> bval) list \<Rightarrow> string" where
  "lastCommand UserCommands query =
     (let cs = filter (\<lambda>c. c \<in> set (map fst query)) UserCommands
      in if cs = [] then ''otherCommand'' else last cs)"

section \<open>Well-formed replies\<close>

text \<open>
  An embedded document as it stands on the wire, paired with what the decoder makes of
  it: the bytes begin with their own length, and the decoder accepts them.
\<close>

definition wellFormedDoc :: "unmarshal \<Rightarrow> byte list \<times> (string \<times> bval) list \<Rightarrow> bool" where
  "wellFormedDoc U x =
     (4 \<le> length (fst x) \<and> le_uint32 (fst x) = int (length (fst x)) \<and> U (fst x) = Some (snd x))"

text \<open>The text the formatter gives a value; empty when the formatter reports an error.\<close>

definition canonicalText :: "marshal \<Rightarrow> bval \<Rightarrow> string" where
  "canonicalText J v = fst (doc2str J v)"

text \<open>
  The message-level error after a reply: the text of the value under "$err" in the first
  document when there is one, else the error \<open>e\<close> the message had.
\<close>

definition replyError :: "marshal \<Rightarrow> (byte list \<times> (string \<times> bval) list) list \<Rightarrow> string \<Rightarrow> string" where
  "replyError J docs e =
     (case docs of
        [] \<Rightarrow> e
      | x # xs \<Rightarrow> (case map_of (snd x) ''$err'' of None \<Rightarrow> e | Some v \<Rightarrow> canonicalText J v))"

text \<open>
  The formatter accepts a reply: it writes a text for every document and, when the first
  document has the key "$err", for the value under that key.
\<close>

definition formatterAccepts :: "marshal \<Rightarrow> (byte list \<times> (string \<times> bval) list) list \<Rightarrow> bool" where
  "formatterAccepts J docs =
     (list_all (\<lambda>x. J (BDoc (snd x)) \<noteq> None) docs \<and>
      (case docs of
         [] \<Rightarrow> True
       | x # xs \<Rightarrow> (case map_of (snd x) ''$err'' of None \<Rightarrow> True | Some v \<Rightarrow> J v \<noteq> None)))"

section \<open>Properties of the primitive field reader\<close>

subsection \<open>Integer conversions\<close>

lemma int_of_uint32_uint: "int_of_uint32 x = uint x"
proof -
  have "uint x < 2 ^ 32" using uint_bounded [of x] by simp
  then have "uint x < 2 ^ 63" by simp
  moreover have "- (2 ^ 63) \<le> uint x"
    by (rule order_trans [of _ 0]) simp_all
  ultimately have "signed_take_bit 63 (uint x) = uint x"
    by (intro signed_take_bit_int_eq_self)
  then show ?thesis
    unfolding int_of_uint32_def
    by (simp add: sint_uint uint_up_ucast is_up)
qed

lemma or_push_bit_8: "0 \<le> a \<Longrightarrow> a < 256 \<Longrightarrow> (a::int) OR push_bit 8 x = a + 256 * x"
  using concat_bit_eq [of 8 a x]
  by (simp add: concat_bit_def take_bit_int_eq_self push_bit_eq_mult)

lemma uint_byte_less: "uint (b::byte) < 256"
  using uint_bounded [of b] by simp

lemma or_bytes_int:
  "uint (b0::byte) OR push_bit 8 (uint (b1::byte)) OR push_bit 16 (uint (b2::byte))
     OR push_bit 24 (uint (b3::byte))
   = uint b0 + 256 * uint b1 + 65536 * uint b2 + 16777216 * uint b3"
proof -
  have "uint b0 OR push_bit 8 (uint b1) OR push_bit 16 (uint b2) OR push_bit 24 (uint b3)
     = uint b0 OR push_bit 8 (uint b1 OR push_bit 8 (uint b2 OR push_bit 8 (uint b3)))"
    by (simp add: push_bit_or)
  also have "\<dots> = uint b0 + 256 * (uint b1 + 256 * (uint b2 + 256 * uint b3))"
    by (simp add: or_push_bit_8 uint_byte_less)
  finally show ?thesis by simp
qed

lemma or_bytes_word:
  "uint ((ucast (b0::byte) OR push_bit 8 (ucast (b1::byte)) OR push_bit 16 (ucast (b2::byte))
          OR push_bit 24 (ucast (b3::byte))) :: 32 word)
   = uint b0 + 256 * uint b1 + 65536 * uint b2 + 16777216 * uint b3"
proof -
  have t: "take_bit 32 (push_bit n (uint b)) = push_bit n (uint b)"
    if "n = 8 \<or> n = 16 \<or> n = 24" for n and b :: byte
  proof -
    have "push_bit n (uint b) < 2 ^ 32"
      using that uint_byte_less [of b] by (auto simp add: push_bit_eq_mult)
    then show ?thesis by (simp add: take_bit_int_eq_self)
  qed
  have "uint ((ucast b0 OR push_bit 8 (ucast b1) OR push_bit 16 (ucast b2)
               OR push_bit 24 (ucast b3)) :: 32 word)
    = uint b0 OR push_bit 8 (uint b1) OR push_bit 16 (uint b2) OR push_bit 24 (uint b3)"
    using t [of 8 b1] t [of 16 b2] t [of 24 b3]
    by (simp add: uint_or uint_up_ucast is_up unsigned_push_bit_eq)
  then show ?thesis by (simp only: or_bytes_int)
qed

lemma le_uint32_bounds: "0 \<le> le_uint32 b" "le_uint32 b < 2 ^ 32"
  using uint_byte_less [of "b ! 0"] uint_byte_less [of "b ! 1"]
    uint_byte_less [of "b ! 2"] uint_byte_less [of "b ! 3"]
  by (simp_all add: le_uint32_def)

lemma le_uint32_drop_take:
  "k + 4 \<le> n \<Longrightarrow> le_uint32 (drop k (take n xs)) = le_uint32 (drop k xs)"
  by (simp add: le_uint32_def drop_take)

lemma le_uint32_take: "4 \<le> n \<Longrightarrow> le_uint32 (take n xs) = le_uint32 xs"
  by (simp add: le_uint32_def)

subsection \<open>Fixed-width reads\<close>

lemma readBytes_ok:
  "d_i d + n \<le> length (d_in d) \<Longrightarrow>
   readBytes d n = (d\<lparr>d_i := d_i d + n\<rparr>, take n (drop (d_i d) (d_in d)), None)"
  by (simp add: readBytes_def Let_def)

lemma readBytes_fail:
  "length (d_in d) < d_i d + n \<Longrightarrow>
   readBytes d n = (d\<lparr>d_i := d_i d + n\<rparr>, [], Some NoByteToRead)"
  by (simp add: readBytes_def Let_def)

lemma readInt32_ok:
  assumes "d_i d + 4 \<le> length (d_in d)"
  shows "readInt32 d = (d\<lparr>d_i := d_i d + 4\<rparr>, le_uint32 (drop (d_i d) (d_in d)), None)"
  using assms
  by (simp add: readInt32_def readBytes_ok int_of_uint32_uint or_bytes_word le_uint32_def)

lemma readInt32_fail:
  "length (d_in d) < d_i d + 4 \<Longrightarrow>
   readInt32 d = (d\<lparr>d_i := d_i d + 4\<rparr>, 0, Some NoByteToRead)"
  by (simp add: readInt32_def readBytes_fail)

subsection \<open>The head of the framer\<close>

lemma framer_length:
  "4 \<le> length elems \<Longrightarrow>
   readInt32 (newDecoder elems spare)
     = (\<lparr>d_in = elems, d_spare = spare, d_i = 4\<rparr>, le_uint32 elems, None)"
  using readInt32_ok [of "newDecoder elems spare"] by (simp add: newDecoder_def)

lemma framer_truncate:
  "0 \<le> len \<Longrightarrow> len \<le> int (length elems) \<Longrightarrow>
   truncate \<lparr>d_in = elems, d_spare = spare, d_i = k\<rparr> len
     = Returns \<lparr>d_in = take (nat len) elems, d_spare = drop (nat len) elems @ spare, d_i = k\<rparr>"
  by (simp add: truncate_def)

lemma OpCodes_0: "OpCodes 0 = None"
  by (simp add: OpCodes_def)

section \<open>The framer\<close>

text \<open>
  Claim C1. For every input buffer, if fewer than 4 bytes are available, or the declared
  messageLength exceeds the number of available bytes, the framer returns the
  need-more-data signal, \<^verbatim>\<open>ok = true\<close> and \<^verbatim>\<open>complete = false\<close>, and consumes nothing: the
  stream it leaves is the stream it was given. The signal has \<^verbatim>\<open>ok = true\<close>, so it is not
  an error. The declared length may be read as the signed 32-bit field of the protocol or
  as the unsigned value the code compares; the statement covers both readings.
\<close>

theorem framer_NeedMoreData:
  assumes "length (data s) < 4 \<or> int (length (data s)) < le_sint32 (data s)
           \<or> int (length (data s)) < le_uint32 (data s)"
  shows "mongodbMessageParser U J UserCommands s = (s, Returns (True, False))"
proof (cases "length (data s) < 4")
  case True
  then show ?thesis
    by (simp add: mongodbMessageParser_def newDecoder_def readInt32_fail)
next
  case False
  then have l: "4 \<le> length (data s)" by simp
  have "le_sint32 (data s) \<le> le_uint32 (data s)" by (simp add: le_sint32_def)
  with assms False have "int (length (data s)) < le_uint32 (data s)" by linarith
  then show ?thesis by (simp add: mongodbMessageParser_def framer_length [OF l])
qed

theorem framer_NeedMoreData_witness:
  "mongodbMessageParser (\<lambda>b. None) (\<lambda>v. None) []
     \<lparr>data = [32, 0, 0, 0, 1, 2], data_spare = [], message = zeroMessage\<rparr>
   = (\<lparr>data = [32, 0, 0, 0, 1, 2], data_spare = [], message = zeroMessage\<rparr>, Returns (True, False))
   \<and> mongodbMessageParser (\<lambda>b. None) (\<lambda>v. None) []
     \<lparr>data = [32, 0], data_spare = [], message = zeroMessage\<rparr>
   = (\<lparr>data = [32, 0], data_spare = [], message = zeroMessage\<rparr>, Returns (True, False))"
  using framer_NeedMoreData [of "\<lparr>data = [32, 0, 0, 0, 1, 2], data_spare = [], message = zeroMessage\<rparr>"
      "\<lambda>b. None" "\<lambda>v. None" "[]"]
    framer_NeedMoreData [of "\<lparr>data = [32, 0], data_spare = [], message = zeroMessage\<rparr>"
      "\<lambda>b. None" "\<lambda>v. None" "[]"]
  by (simp add: le_uint32_def)

text \<open>
  Claim C7. For every buffer that holds a complete message (its declared length is at
  least the 16 bytes of the header and at most the bytes buffered) whose opCode is absent
  from the opcode table, the parser returns \<^verbatim>\<open>ok = false\<close>, and the message it leaves
  differs from the one it was given in the three header fields only: no event field is
  populated, and opCode, method, error and the flags are untouched.
\<close>

theorem framer_UnknownOpCode:
  assumes "16 \<le> le_uint32 (data s)" and "le_uint32 (data s) \<le> int (length (data s))"
    and "OpCodes (le_uint32 (drop 12 (data s))) = None"
  shows "mongodbMessageParser U J UserCommands s =
     (s\<lparr>message := (message s)\<lparr>messageLength := le_uint32 (data s),
           requestId := le_uint32 (drop 4 (data s)), responseTo := le_uint32 (drop 8 (data s))\<rparr>\<rparr>,
      Returns (False, False))"
proof -
  have l: "4 \<le> length (data s)" using assms(1,2) by linarith
  have n: "16 \<le> nat (le_uint32 (data s))" "nat (le_uint32 (data s)) \<le> length (data s)"
    using assms(1,2) by linarith+
  show ?thesis
    using assms n
    by (simp add: mongodbMessageParser_def framer_length [OF l] framer_truncate
        readInt32_ok le_uint32_drop_take)
qed

theorem framer_UnknownOpCode_witness:
  "mongodbMessageParser (\<lambda>b. None) (\<lambda>v. None) []
     \<lparr>data = [16, 0, 0, 0, 7, 0, 0, 0, 0, 0, 0, 0, 15, 39, 0, 0], data_spare = [],
      message = zeroMessage\<rparr>
   = (\<lparr>data = [16, 0, 0, 0, 7, 0, 0, 0, 0, 0, 0, 0, 15, 39, 0, 0], data_spare = [],
       message = zeroMessage\<lparr>messageLength := 16, requestId := 7, responseTo := 0\<rparr>\<rparr>,
      Returns (False, False))
   \<and> le_uint32 [15, 39, 0, 0] = 9999"
  using framer_UnknownOpCode [of
      "\<lparr>data = [16, 0, 0, 0, 7, 0, 0, 0, 0, 0, 0, 0, 15, 39, 0, 0], data_spare = [],
        message = zeroMessage\<rparr>" "\<lambda>b. None" "\<lambda>v. None" "[]"]
  by (simp add: le_uint32_def OpCodes_def)

text \<open>
  Claim C10. The framer assigns and never tests the errors of the reads of requestId,
  responseTo and opCode. For every buffer whose declared length is at least 4, at most
  the bytes buffered and below 16: the parser returns \<^verbatim>\<open>(false, false)\<close>, the same result
  as for an unknown opcode; requestId and responseTo hold what could be read and 0
  otherwise; on the narrowed view the read of opCode fails, yields 0 and leaves the
  cursor at 16, past the end of the view; 0 is not in the opcode table; and a failing
  \<^verbatim>\<open>readBytes\<close> always leaves the cursor advanced.
\<close>

theorem framer_short_header:
  assumes "4 \<le> le_uint32 (data s)" and "le_uint32 (data s) \<le> int (length (data s))"
    and "le_uint32 (data s) < 16"
  shows "mongodbMessageParser U J UserCommands s =
     (s\<lparr>message := (message s)\<lparr>messageLength := le_uint32 (data s),
           requestId := (if 8 \<le> le_uint32 (data s) then le_uint32 (drop 4 (data s)) else 0),
           responseTo := (if 12 \<le> le_uint32 (data s) then le_uint32 (drop 8 (data s)) else 0)\<rparr>\<rparr>,
      Returns (False, False))
    \<and> (let d = \<lparr>d_in = take (nat (le_uint32 (data s))) (data s),
                  d_spare = drop (nat (le_uint32 (data s))) (data s) @ data_spare s, d_i = 4\<rparr>;
            (d, v1, err1) = readInt32 d;
            (d, v2, err2) = readInt32 d;
            (d, opc, err3) = readInt32 d
        in opc = 0 \<and> err3 = Some NoByteToRead \<and> d_i d = 16 \<and> length (d_in d) < d_i d
           \<and> (err1 = None) = (8 \<le> le_uint32 (data s))
           \<and> (err2 = None) = (12 \<le> le_uint32 (data s)))
    \<and> OpCodes 0 = None
    \<and> (\<forall>d n. length (d_in d) < d_i d + n \<longrightarrow>
           readBytes d n = (d\<lparr>d_i := d_i d + n\<rparr>, [], Some NoByteToRead))"
proof -
  have l: "4 \<le> length (data s)" using assms(1,2) by linarith
  have n: "nat (le_uint32 (data s)) < 16" "nat (le_uint32 (data s)) \<le> length (data s)"
    using assms by linarith+
  consider "le_uint32 (data s) < 8" | "8 \<le> le_uint32 (data s)" "le_uint32 (data s) < 12"
    | "12 \<le> le_uint32 (data s)" by linarith
  then have "mongodbMessageParser U J UserCommands s =
     (s\<lparr>message := (message s)\<lparr>messageLength := le_uint32 (data s),
           requestId := (if 8 \<le> le_uint32 (data s) then le_uint32 (drop 4 (data s)) else 0),
           responseTo := (if 12 \<le> le_uint32 (data s) then le_uint32 (drop 8 (data s)) else 0)\<rparr>\<rparr>,
      Returns (False, False))
    \<and> (let d = \<lparr>d_in = take (nat (le_uint32 (data s))) (data s),
                  d_spare = drop (nat (le_uint32 (data s))) (data s) @ data_spare s, d_i = 4\<rparr>;
            (d, v1, err1) = readInt32 d;
            (d, v2, err2) = readInt32 d;
            (d, opc, err3) = readInt32 d
        in opc = 0 \<and> err3 = Some NoByteToRead \<and> d_i d = 16 \<and> length (d_in d) < d_i d
           \<and> (err1 = None) = (8 \<le> le_uint32 (data s))
           \<and> (err2 = None) = (12 \<le> le_uint32 (data s)))"
  proof cases
    case 1
    then have "nat (le_uint32 (data s)) < 8" by linarith
    with 1 assms n show ?thesis
      by (simp add: mongodbMessageParser_def framer_length [OF l] framer_truncate
          readInt32_fail OpCodes_0)
  next
    case 2
    then have "8 \<le> nat (le_uint32 (data s))" "nat (le_uint32 (data s)) < 12" by linarith+
    with 2 assms n show ?thesis
      by (simp add: mongodbMessageParser_def framer_length [OF l] framer_truncate
          readInt32_ok readInt32_fail le_uint32_drop_take OpCodes_0)
  next
    case 3
    then have "12 \<le> nat (le_uint32 (data s))" by linarith
    with 3 assms n show ?thesis
      by (simp add: mongodbMessageParser_def framer_length [OF l] framer_truncate
          readInt32_ok readInt32_fail le_uint32_drop_take OpCodes_0)
  qed
  then show ?thesis
    by (simp add: OpCodes_0 readBytes_fail)
qed

theorem framer_short_header_witness:
  "mongodbMessageParser (\<lambda>b. None) (\<lambda>v. None) []
     \<lparr>data = [10, 0, 0, 0, 7, 0, 0, 0, 1, 0, 212, 7, 0, 0], data_spare = [],
      message = zeroMessage\<rparr>
   = (\<lparr>data = [10, 0, 0, 0, 7, 0, 0, 0, 1, 0, 212, 7, 0, 0], data_spare = [],
       message = zeroMessage\<lparr>messageLength := 10, requestId := 7, responseTo := 0\<rparr>\<rparr>,
      Returns (False, False))"
  using framer_short_header [of
      "\<lparr>data = [10, 0, 0, 0, 7, 0, 0, 0, 1, 0, 212, 7, 0, 0], data_spare = [],
        message = zeroMessage\<rparr>" "\<lambda>b. None" "\<lambda>v. None" "[]"]
  by (simp add: le_uint32_def)

section \<open>What the extractors leave untouched\<close>

lemma keeps_prod: "(\<And>a b. keeps f m (g a b)) \<Longrightarrow> keeps f m (case p of (a, b) \<Rightarrow> g a b)"
  by (cases p) simp

lemma keeps_run:
  "keeps f m a \<Longrightarrow> (\<And>x. keeps f m (g x)) \<Longrightarrow>
   keeps f m (case r of Panics \<Rightarrow> a | Returns x \<Rightarrow> g x)"
  by (cases r) simp_all

lemma keeps_if: "keeps f m a \<Longrightarrow> keeps f m b \<Longrightarrow> keeps f m (if c then a else b)"
  by simp

lemma keeps_leaf: "f m' = f m \<Longrightarrow> keeps f m (m', r)"
  by (simp add: keeps_def)

lemmas keeps_rules = keeps_prod keeps_run keeps_if keeps_leaf

lemma opMsgParse_keeps:
  assumes "\<And>m e. f (m\<lparr>event := e\<rparr>) = f m"
  shows "keeps f m (opMsgParse d m)"
  unfolding opMsgParse_def Let_def
  by (intro keeps_rules) (simp_all add: assms)

lemma opUpdateParse_keeps:
  assumes "\<And>m e. f (m\<lparr>event := e\<rparr>) = f m"
  shows "keeps f m (opUpdateParse U J d m)"
  unfolding opUpdateParse_def Let_def
  by (intro keeps_rules) (simp_all add: assms)

lemma opInsertParse_keeps:
  assumes "\<And>m e. f (m\<lparr>event := e\<rparr>) = f m"
  shows "keeps f m (opInsertParse d m)"
  unfolding opInsertParse_def Let_def
  by (intro keeps_rules) (simp_all add: assms)

lemma opGetMoreParse_keeps:
  assumes "\<And>m e. f (m\<lparr>event := e\<rparr>) = f m"
  shows "keeps f m (opGetMoreParse d m)"
  unfolding opGetMoreParse_def Let_def
  by (intro keeps_rules) (simp_all add: assms)

lemma opDeleteParse_keeps:
  assumes "\<And>m e. f (m\<lparr>event := e\<rparr>) = f m"
  shows "keeps f m (opDeleteParse U J d m)"
  unfolding opDeleteParse_def Let_def
  by (intro keeps_rules) (simp_all add: assms)

lemma opKillCursorsParse_keeps: "keeps f m (opKillCursorsParse d m)"
  by (simp add: opKillCursorsParse_def keeps_def)

lemma userCommandLoop_keeps:
  assumes "\<And>m c. f (m\<lparr>method := c\<rparr>) = f m"
  shows "f (userCommandLoop q cs m) = f m"
  by (induction cs arbitrary: m) (simp_all add: assms)

lemma opQueryFinish_keeps:
  assumes "\<And>m e. f (m\<lparr>event := e\<rparr>) = f m" and "\<And>m c. f (m\<lparr>method := c\<rparr>) = f m"
  shows "keeps f m (opQueryFinish J cs n q m)"
  unfolding opQueryFinish_def Let_def
  by (intro keeps_rules) (simp_all add: assms userCommandLoop_keeps [of f, OF assms(2)])

lemma keeps_trans: "f m' = f m \<Longrightarrow> keeps f m' x \<Longrightarrow> keeps f m x"
  by (simp add: keeps_def)

lemma opQueryParse_keeps:
  assumes "\<And>m e. f (m\<lparr>event := e\<rparr>) = f m" and "\<And>m c. f (m\<lparr>method := c\<rparr>) = f m"
  shows "keeps f m (opQueryParse U J cs d m)"
  unfolding opQueryParse_def Let_def
  by (intro keeps_prod keeps_run keeps_if keeps_leaf
        keeps_trans [OF _ opQueryFinish_keeps [of f, OF assms]])
     (simp_all add: assms)

subsection \<open>The loop over the documents of a reply\<close>

lemma opReplyLoop_done:
  "\<not> k < n \<Longrightarrow> opReplyLoop U J n k d m docs err = ((d, m), Returns (docs, err))"
  by (subst opReplyLoop.simps) simp

lemma opReplyLoop_panic:
  "k < n \<Longrightarrow> readDocument U d = (d', Panics) \<Longrightarrow>
   opReplyLoop U J n k d m docs err = ((d', m), Panics)"
  by (subst opReplyLoop.simps) simp

lemma opReplyLoop_step:
  "k < n \<Longrightarrow> readDocument U d = (d', Returns (document, e)) \<Longrightarrow>
   opReplyLoop U J n k d m docs err =
     opReplyLoop U J n (k + 1) d'
       (if k = 0 then (case lookupM document ''$err'' of
                         Some mongoError \<Rightarrow> m\<lparr>error := fst (doc2str J mongoError)\<rparr>
                       | None \<Rightarrow> m)
        else m)
       (docs[nat k := fst (doc2str J (ifaceM document))])
       (snd (doc2str J (ifaceM document)))"
  by (subst opReplyLoop.simps) (simp add: Let_def split: option.splits prod.splits)

lemma readDocument_cases:
  obtains d' where "readDocument U d = (d', Panics)"
  | d' document e where "readDocument U d = (d', Returns (document, e))"
  by (metis run.exhaust surj_pair)

lemma opReplyLoop_keeps:
  assumes "\<And>m e. f (m\<lparr>error := e\<rparr>) = f m"
  shows "f (snd (fst (opReplyLoop U J n k d m docs err))) = f m"
proof (induction "nat (n - k)" arbitrary: k d m docs err)
  case 0
  then have "\<not> k < n" by simp
  then show ?case by (simp add: opReplyLoop_done)
next
  case (Suc j)
  then have lt: "k < n" by linarith
  show ?case
  proof (cases rule: readDocument_cases [of U d])
    case (1 d')
    with lt show ?thesis by (simp add: opReplyLoop_panic)
  next
    case (2 d' document e)
    from Suc(2) have j: "j = nat (n - (k + 1))" by linarith
    show ?thesis
      by (simp add: opReplyLoop_step [OF lt 2] Suc(1) [OF j] assms split: option.splits)
  qed
qed

lemma opReplyParse_keeps:
  assumes "\<And>m e. f (m\<lparr>event := e\<rparr>) = f m" and "\<And>m e. f (m\<lparr>error := e\<rparr>) = f m"
  shows "keeps f m (opReplyParse U J d m)"
proof -
  have l: "keeps f m (case opReplyLoop U J n 0 d' m' docs err of
                 ((d, m), Panics) \<Rightarrow> (m, Panics)
               | ((d, m), Returns (documents, err)) \<Rightarrow>
                   (if err \<noteq> None
                    then (m\<lparr>event := (event m)(''documents'' \<mapsto> EStrs documents)\<rparr>, Returns (False, False))
                    else (m\<lparr>event := (event m)(''documents'' \<mapsto> EStrs documents)\<rparr>, Returns (True, True))))"
    if "f m' = f m" for n d' m' docs err
  proof -
    obtain d5 m5 r where x: "opReplyLoop U J n 0 d' m' docs err = ((d5, m5), r)"
      by (metis surj_pair)
    from opReplyLoop_keeps [of f U J n 0 d' m' docs err, OF assms(2)] x that
    have "f m5 = f m" by simp
    then show ?thesis
      by (cases r) (auto simp add: x keeps_def assms(1))
  qed
  show ?thesis
    unfolding opReplyParse_def Let_def
    by (intro keeps_prod keeps_if keeps_leaf l) (simp_all add: assms)
qed

section \<open>The dispatcher\<close>

lemma framer_header:
  assumes "16 \<le> le_uint32 (data s)" and "le_uint32 (data s) \<le> int (length (data s))"
  shows "mongodbMessageParser U J UserCommands s =
     (case OpCodes (le_uint32 (drop 12 (data s))) of
        None \<Rightarrow>
          (s\<lparr>message := (message s)\<lparr>messageLength := le_uint32 (data s),
                requestId := le_uint32 (drop 4 (data s)),
                responseTo := le_uint32 (drop 8 (data s))\<rparr>\<rparr>, Returns (False, False))
      | Some name \<Rightarrow>
          (s\<lparr>message := fst (opCodeSwitch U J UserCommands
                \<lparr>d_in = take (nat (le_uint32 (data s))) (data s),
                 d_spare = drop (nat (le_uint32 (data s))) (data s) @ data_spare s, d_i = 16\<rparr>
                ((message s)\<lparr>messageLength := le_uint32 (data s),
                   requestId := le_uint32 (drop 4 (data s)),
                   responseTo := le_uint32 (drop 8 (data s)),
                   opCode := name, IsResponse := False, ExpectsResponse := False,
                   event := Map.empty\<rparr>))\<rparr>,
           snd (opCodeSwitch U J UserCommands
                \<lparr>d_in = take (nat (le_uint32 (data s))) (data s),
                 d_spare = drop (nat (le_uint32 (data s))) (data s) @ data_spare s, d_i = 16\<rparr>
                ((message s)\<lparr>messageLength := le_uint32 (data s),
                   requestId := le_uint32 (drop 4 (data s)),
                   responseTo := le_uint32 (drop 8 (data s)),
                   opCode := name, IsResponse := False, ExpectsResponse := False,
                   event := Map.empty\<rparr>))))"
proof -
  have l: "4 \<le> length (data s)" using assms(1,2) by linarith
  have n: "16 \<le> nat (le_uint32 (data s))" "nat (le_uint32 (data s)) \<le> length (data s)"
    using assms(1,2) by linarith+
  show ?thesis
    using assms n
    by (simp add: mongodbMessageParser_def framer_length [OF l] framer_truncate
        readInt32_ok le_uint32_drop_take case_prod_beta Let_def split: option.splits)
qed

lemma OpCodes_names:
  "OpCodes c = Some name \<Longrightarrow>
   name = ''OP_REPLY'' \<or> name = ''OP_MSG'' \<or> name = ''OP_UPDATE'' \<or> name = ''OP_INSERT'' \<or>
   name = ''OP_QUERY'' \<or> name = ''OP_GET_MORE'' \<or> name = ''OP_DELETE'' \<or> name = ''OP_KILL_CURSORS''"
  by (auto simp add: OpCodes_def split: if_splits)

lemma opCodeSwitch_flags:
  assumes "opCode m = ''OP_REPLY'' \<or> opCode m = ''OP_MSG'' \<or> opCode m = ''OP_UPDATE'' \<or>
      opCode m = ''OP_INSERT'' \<or> opCode m = ''OP_QUERY'' \<or> opCode m = ''OP_GET_MORE'' \<or>
      opCode m = ''OP_DELETE'' \<or> opCode m = ''OP_KILL_CURSORS''"
    and "IsResponse m = False" and "ExpectsResponse m = False"
  shows "opCode (fst (opCodeSwitch U J cs d m)) = opCode m"
    and "IsResponse (fst (opCodeSwitch U J cs d m)) = (opCode m = ''OP_REPLY'')"
    and "ExpectsResponse (fst (opCodeSwitch U J cs d m))
          = (opCode m = ''OP_QUERY'' \<or> opCode m = ''OP_GET_MORE'')"
    and "method (fst (opCodeSwitch U J cs d m)) =
          (if opCode m = ''OP_REPLY'' then method m
           else if opCode m = ''OP_MSG'' then ''msg''
           else if opCode m = ''OP_UPDATE'' then ''update''
           else if opCode m = ''OP_INSERT'' then ''insert''
           else if opCode m = ''OP_QUERY'' then method (fst (opCodeSwitch U J cs d m))
           else if opCode m = ''OP_GET_MORE'' then ''getMore''
           else if opCode m = ''OP_DELETE'' then ''delete''
           else ''killCursors'')"
proof -
  let ?f = "\<lambda>m. (opCode m, IsResponse m, ExpectsResponse m, method m)"
  let ?g = "\<lambda>m. (opCode m, IsResponse m, ExpectsResponse m)"
  note k = opReplyParse_keeps [of ?f, unfolded keeps_def]
    opMsgParse_keeps [of ?f, unfolded keeps_def]
    opUpdateParse_keeps [of ?f, unfolded keeps_def]
    opInsertParse_keeps [of ?f, unfolded keeps_def]
    opQueryParse_keeps [of ?g, unfolded keeps_def]
    opGetMoreParse_keeps [of ?f, unfolded keeps_def]
    opDeleteParse_keeps [of ?f, unfolded keeps_def]
    opKillCursorsParse_keeps [of ?f, unfolded keeps_def]
  have a: "?f (fst (opReplyParse U J d m')) = ?f m'" for m' by (rule k) simp_all
  have b: "?f (fst (opMsgParse d m')) = ?f m'" for m' by (rule k) simp_all
  have c: "?f (fst (opUpdateParse U J d m')) = ?f m'" for m' by (rule k) simp_all
  have e: "?f (fst (opInsertParse d m')) = ?f m'" for m' by (rule k) simp_all
  have q: "?g (fst (opQueryParse U J cs d m')) = ?g m'" for m' by (rule k) simp_all
  have g: "?f (fst (opGetMoreParse d m')) = ?f m'" for m' by (rule k) simp_all
  have h: "?f (fst (opDeleteParse U J d m')) = ?f m'" for m' by (rule k) simp_all
  have i: "?f (fst (opKillCursorsParse d m')) = ?f m'" for m' by (rule k)
  note all = a [of "m\<lparr>IsResponse := True\<rparr>"] b [of "m\<lparr>method := ''msg''\<rparr>"]
    c [of "m\<lparr>method := ''update''\<rparr>"] e [of "m\<lparr>method := ''insert''\<rparr>"]
    q [of "m\<lparr>ExpectsResponse := True\<rparr>"]
    g [of "m\<lparr>method := ''getMore'', ExpectsResponse := True\<rparr>"]
    h [of "m\<lparr>method := ''delete''\<rparr>"] i [of "m\<lparr>method := ''killCursors''\<rparr>"]
  show "opCode (fst (opCodeSwitch U J cs d m)) = opCode m"
    using assms all by (auto simp add: opCodeSwitch_def)
  show "IsResponse (fst (opCodeSwitch U J cs d m)) = (opCode m = ''OP_REPLY'')"
    using assms all by (auto simp add: opCodeSwitch_def)
  show "ExpectsResponse (fst (opCodeSwitch U J cs d m))
          = (opCode m = ''OP_QUERY'' \<or> opCode m = ''OP_GET_MORE'')"
    using assms all by (auto simp add: opCodeSwitch_def)
  show "method (fst (opCodeSwitch U J cs d m)) =
          (if opCode m = ''OP_REPLY'' then method m
           else if opCode m = ''OP_MSG'' then ''msg''
           else if opCode m = ''OP_UPDATE'' then ''update''
           else if opCode m = ''OP_INSERT'' then ''insert''
           else if opCode m = ''OP_QUERY'' then method (fst (opCodeSwitch U J cs d m))
           else if opCode m = ''OP_GET_MORE'' then ''getMore''
           else if opCode m = ''OP_DELETE'' then ''delete''
           else ''killCursors'')"
    using assms all by (auto simp add: opCodeSwitch_def)
qed

text \<open>
  Claim C8. For every complete message with a recognized opcode, whatever the extractor
  does afterwards (it may return valid, return invalid or panic), the message left has
  \<^verbatim>\<open>IsResponse = true\<close> exactly when the opcode is OP_REPLY, \<^verbatim>\<open>ExpectsResponse = true\<close>
  exactly when it is OP_QUERY or OP_GET_MORE, opCode is the name of the table, and method
  is the fixed name of the operation: "msg", "update", "insert", "getMore", "delete" (and
  "killCursors"); a reply leaves method as it was.
\<close>

theorem dispatcher_flags:
  assumes "16 \<le> le_uint32 (data s)" and "le_uint32 (data s) \<le> int (length (data s))"
    and "OpCodes (le_uint32 (drop 12 (data s))) = Some name"
  shows "opCode (message (fst (mongodbMessageParser U J UserCommands s))) = name
    \<and> IsResponse (message (fst (mongodbMessageParser U J UserCommands s))) = (name = ''OP_REPLY'')
    \<and> ExpectsResponse (message (fst (mongodbMessageParser U J UserCommands s)))
        = (name = ''OP_QUERY'' \<or> name = ''OP_GET_MORE'')
    \<and> (name = ''OP_MSG'' \<longrightarrow>
         method (message (fst (mongodbMessageParser U J UserCommands s))) = ''msg'')
    \<and> (name = ''OP_UPDATE'' \<longrightarrow>
         method (message (fst (mongodbMessageParser U J UserCommands s))) = ''update'')
    \<and> (name = ''OP_INSERT'' \<longrightarrow>
         method (message (fst (mongodbMessageParser U J UserCommands s))) = ''insert'')
    \<and> (name = ''OP_GET_MORE'' \<longrightarrow>
         method (message (fst (mongodbMessageParser U J UserCommands s))) = ''getMore'')
    \<and> (name = ''OP_DELETE'' \<longrightarrow>
         method (message (fst (mongodbMessageParser U J UserCommands s))) = ''delete'')
    \<and> (name = ''OP_KILL_CURSORS'' \<longrightarrow>
         method (message (fst (mongodbMessageParser U J UserCommands s))) = ''killCursors'')
    \<and> (name = ''OP_REPLY'' \<longrightarrow>
         method (message (fst (mongodbMessageParser U J UserCommands s))) = method (message s))"
proof -
  define d where "d = \<lparr>d_in = take (nat (le_uint32 (data s))) (data s),
     d_spare = drop (nat (le_uint32 (data s))) (data s) @ data_spare s, d_i = 16\<rparr>"
  define m where "m = (message s)\<lparr>messageLength := le_uint32 (data s),
     requestId := le_uint32 (drop 4 (data s)), responseTo := le_uint32 (drop 8 (data s)),
     opCode := name, IsResponse := False, ExpectsResponse := False, event := Map.empty\<rparr>"
  have p: "message (fst (mongodbMessageParser U J UserCommands s))
      = fst (opCodeSwitch U J UserCommands d m)"
    by (simp add: framer_header [OF assms(1,2)] assms(3) d_def m_def)
  have o: "opCode m = name" "IsResponse m = False" "ExpectsResponse m = False"
    "method m = method (message s)"
    by (simp_all add: m_def)
  have n: "opCode m = ''OP_REPLY'' \<or> opCode m = ''OP_MSG'' \<or> opCode m = ''OP_UPDATE'' \<or>
      opCode m = ''OP_INSERT'' \<or> opCode m = ''OP_QUERY'' \<or> opCode m = ''OP_GET_MORE'' \<or>
      opCode m = ''OP_DELETE'' \<or> opCode m = ''OP_KILL_CURSORS''"
    using OpCodes_names [OF assms(3)] o(1) by simp
  note f = opCodeSwitch_flags [OF n o(2,3), of U J UserCommands d, unfolded o(1)]
  show ?thesis
    unfolding p using f o(4) by auto
qed

theorem dispatcher_flags_witness:
  "opCode (message (fst (mongodbMessageParser (\<lambda>b. None) (\<lambda>v. None) []
      \<lparr>data = [36, 0, 0, 0, 7, 0, 0, 0, 0, 0, 0, 0, 213, 7, 0, 0,
                0, 0, 0, 0, 97, 46, 98, 0, 5, 0, 0, 0, 1, 0, 0, 0, 0, 0, 0, 0],
        data_spare = [], message = zeroMessage\<rparr>))) = ''OP_GET_MORE''
   \<and> IsResponse (message (fst (mongodbMessageParser (\<lambda>b. None) (\<lambda>v. None) []
      \<lparr>data = [36, 0, 0, 0, 7, 0, 0, 0, 0, 0, 0, 0, 213, 7, 0, 0,
                0, 0, 0, 0, 97, 46, 98, 0, 5, 0, 0, 0, 1, 0, 0, 0, 0, 0, 0, 0],
        data_spare = [], message = zeroMessage\<rparr>))) = False
   \<and> ExpectsResponse (message (fst (mongodbMessageParser (\<lambda>b. None) (\<lambda>v. None) []
      \<lparr>data = [36, 0, 0, 0, 7, 0, 0, 0, 0, 0, 0, 0, 213, 7, 0, 0,
                0, 0, 0, 0, 97, 46, 98, 0, 5, 0, 0, 0, 1, 0, 0, 0, 0, 0, 0, 0],
        data_spare = [], message = zeroMessage\<rparr>))) = True
   \<and> method (message (fst (mongodbMessageParser (\<lambda>b. None) (\<lambda>v. None) []
      \<lparr>data = [36, 0, 0, 0, 7, 0, 0, 0, 0, 0, 0, 0, 213, 7, 0, 0,
                0, 0, 0, 0, 97, 46, 98, 0, 5, 0, 0, 0, 1, 0, 0, 0, 0, 0, 0, 0],
        data_spare = [], message = zeroMessage\<rparr>))) = ''getMore''"
  using dispatcher_flags [of
      "\<lparr>data = [36, 0, 0, 0, 7, 0, 0, 0, 0, 0, 0, 0, 213, 7, 0, 0,
                0, 0, 0, 0, 97, 46, 98, 0, 5, 0, 0, 0, 1, 0, 0, 0, 0, 0, 0, 0],
        data_spare = [], message = zeroMessage\<rparr>" "''OP_GET_MORE''" "\<lambda>b. None" "\<lambda>v. None" "[]"]
  by (simp add: le_uint32_def OpCodes_def)

section \<open>The value of a 32-bit field\<close>

lemma le_sint32_eq_le_uint32_iff: "le_sint32 b = le_uint32 b \<longleftrightarrow> uint (b ! 3) < 128"
proof -
  have "x + 256 * y + 65536 * z + 16777216 * w < 2147483648 \<longleftrightarrow> w < 128"
    if "0 \<le> x" "x < 256" "0 \<le> y" "y < 256" "0 \<le> z" "z < 256" for x y z w :: int
    using that by arith
  from this [of "uint (b ! 0)" "uint (b ! 1)" "uint (b ! 2)" "uint (b ! 3)"]
  have "le_uint32 b < 2 ^ 31 \<longleftrightarrow> uint (b ! 3) < 128"
    using uint_byte_less [of "b ! 0"] uint_byte_less [of "b ! 1"] uint_byte_less [of "b ! 2"]
    by (simp add: le_uint32_def)
  then show ?thesis by (simp add: le_sint32_def)
qed

text \<open>
  What \<^verbatim>\<open>readInt32\<close> returns on four available bytes: their unsigned reading, which is the
  signed reading exactly when the high bit of the fourth byte is clear.
\<close>

lemma readInt32_value:
  assumes "d_i d + 4 \<le> length (d_in d)"
  shows "fst (snd (readInt32 d)) = le_uint32 (drop (d_i d) (d_in d))"
    and "0 \<le> fst (snd (readInt32 d))"
    and "fst (snd (readInt32 d)) = le_sint32 (drop (d_i d) (d_in d))
         \<longleftrightarrow> uint (d_in d ! (d_i d + 3)) < 128"
  using assms le_uint32_bounds(1) [of "drop (d_i d) (d_in d)"]
    le_sint32_eq_le_uint32_iff [of "drop (d_i d) (d_in d)"]
  by (simp_all add: readInt32_ok eq_commute [of "le_uint32 _" "le_sint32 _"])

text \<open>
  Claim C9 says that \<^verbatim>\<open>readInt32\<close> decodes four bytes as a little-endian two's-complement
  signed integer, negative when the high bit of the fourth byte is set. The code converts
  the assembled \<^verbatim>\<open>uint32\<close> with \<^verbatim>\<open>int(...)\<close>, which on a 64-bit target extends with zeros:
  the bytes 00 00 00 80 decode to 2147483648 where the signed reading is -2147483648, and
  FF FF FF FF (the numberToReturn = -1 of a command query) to 4294967295. The sibling
  \<^verbatim>\<open>readInt64\<close>, written the same way, does return the signed value.
\<close>

theorem readInt32_high_bit_unsigned:
  "readInt32 \<lparr>d_in = [0, 0, 0, 128], d_spare = [], d_i = 0\<rparr>
     = (\<lparr>d_in = [0, 0, 0, 128], d_spare = [], d_i = 4\<rparr>, 2147483648, None)
   \<and> le_sint32 [0, 0, 0, 128] = - 2147483648
   \<and> readInt32 \<lparr>d_in = [255, 255, 255, 255], d_spare = [], d_i = 0\<rparr>
     = (\<lparr>d_in = [255, 255, 255, 255], d_spare = [], d_i = 4\<rparr>, 4294967295, None)
   \<and> le_sint32 [255, 255, 255, 255] = - 1
   \<and> readInt64 \<lparr>d_in = [255, 255, 255, 255, 255, 255, 255, 255], d_spare = [], d_i = 0\<rparr>
     = (\<lparr>d_in = [255, 255, 255, 255, 255, 255, 255, 255], d_spare = [], d_i = 8\<rparr>, - 1, None)"
  by code_simp

section \<open>Reading an embedded document\<close>

lemma readInt32_nonneg: "0 \<le> fst (snd (readInt32 d))"
proof (cases "d_i d + 4 \<le> length (d_in d)")
  case True
  then show ?thesis by (simp add: readInt32_ok le_uint32_bounds(1))
next
  case False
  then show ?thesis by (simp add: readInt32_fail)
qed

text \<open>The cursor after \<^verbatim>\<open>readDocument\<close>, for every call and every outcome.\<close>

lemma readDocument_cursor:
  "d_i (fst (readDocument U d)) = d_i d + nat (fst (snd (readInt32 d)))"
  using readInt32_nonneg [of d]
  by (simp add: readDocument_def Let_def nat_add_distrib case_prod_beta split: option.splits)

text \<open>
  With a readable length prefix whose extent lies inside the capacity of the buffer,
  \<^verbatim>\<open>readDocument\<close> moves the cursor to \<open>start + length\<close> whatever the decoder does, hands the
  decoder the bytes from \<open>start\<close> on, whether or not they lie inside the view, and fails
  exactly when the decoder rejects them.
\<close>

lemma readDocument_in_capacity:
  assumes "d_i d + 4 \<le> length (d_in d)"
    and "d_i d + nat (le_uint32 (drop (d_i d) (d_in d))) \<le> length (d_in d) + length (d_spare d)"
  shows "readDocument U d =
     (d\<lparr>d_i := d_i d + nat (le_uint32 (drop (d_i d) (d_in d)))\<rparr>,
      Returns (case U (take (nat (le_uint32 (drop (d_i d) (d_in d))))
                         (drop (d_i d) (d_in d @ d_spare d))) of
                 None \<Rightarrow> (None, Some UnmarshalError)
               | Some documentMap \<Rightarrow> (Some documentMap, None)))"
  using assms le_uint32_bounds(1) [of "drop (d_i d) (d_in d)"]
  by (simp add: readDocument_def readInt32_ok nat_add_distrib Let_def split: option.splits)

text \<open>When the extent runs past the capacity the reslice panics, the cursor already moved.\<close>

lemma readDocument_past_capacity:
  assumes "d_i d + 4 \<le> length (d_in d)"
    and "length (d_in d) + length (d_spare d) < d_i d + nat (le_uint32 (drop (d_i d) (d_in d)))"
  shows "readDocument U d =
     (d\<lparr>d_i := d_i d + nat (le_uint32 (drop (d_i d) (d_in d)))\<rparr>, Panics)"
  using assms le_uint32_bounds(1) [of "drop (d_i d) (d_in d)"]
  by (simp add: readDocument_def readInt32_ok nat_add_distrib Let_def)

text \<open>
  When fewer than four bytes are left the length is taken as 0: the cursor is put back to
  \<open>start\<close> and the decoder is given no bytes.
\<close>

lemma readDocument_no_prefix:
  assumes "length (d_in d) < d_i d + 4" and "d_i d \<le> length (d_in d) + length (d_spare d)"
  shows "readDocument U d =
     (d, Returns (case U [] of None \<Rightarrow> (None, Some UnmarshalError)
                  | Some documentMap \<Rightarrow> (Some documentMap, None)))"
  using assms by (simp add: readDocument_def readInt32_fail split: option.splits)

text \<open>
  Claim C6 says that every call of \<^verbatim>\<open>readDocument\<close> moves the cursor to start + declared
  length and fails with a decode error exactly when the designated bytes are not a valid
  document. The lemmas above give this when the declared extent lies inside the buffer's
  capacity. Where it does not, the call does not return an error: the reslice
  \<^verbatim>\<open>d.in[start:d.i]\<close> has no bounds check of the kind \<^verbatim>\<open>readBytes\<close> makes, and panics. A
  document prefix of 255 in a 5-byte buffer, and the same selector in a complete OP_DELETE
  message:
\<close>

theorem readDocument_overrun_panics:
  "readDocument bsonSubset \<lparr>d_in = [255, 0, 0, 0, 0], d_spare = [], d_i = 0\<rparr>
     = (\<lparr>d_in = [255, 0, 0, 0, 0], d_spare = [], d_i = 255\<rparr>, Panics)
   \<and> snd (mongodbMessageParser bsonSubset jsonSubset []
        \<lparr>data = [31, 0, 0, 0, 7, 0, 0, 0, 0, 0, 0, 0, 214, 7, 0, 0,
                  0, 0, 0, 0, 97, 0, 0, 0, 0, 0, 255, 0, 0, 0, 0],
          data_spare = [], message = zeroMessage\<rparr>) = Panics"
  by code_simp

section \<open>The view and the bytes behind it\<close>

text \<open>
  The fixed-width reads and the string read never look behind the view: whatever the
  spare capacity holds, they return the same values, errors and cursor.
\<close>

lemma readBytes_inside_view:
  "readBytes (d\<lparr>d_spare := sp\<rparr>) n =
     (fst (readBytes d n)\<lparr>d_spare := sp\<rparr>, snd (readBytes d n))"
  by (simp add: readBytes_def Let_def)

lemma readInt32_inside_view:
  "readInt32 (d\<lparr>d_spare := sp\<rparr>) =
     (fst (readInt32 d)\<lparr>d_spare := sp\<rparr>, snd (readInt32 d))"
  by (simp add: readInt32_def readBytes_inside_view case_prod_beta)

lemma readInt64_inside_view:
  "readInt64 (d\<lparr>d_spare := sp\<rparr>) =
     (fst (readInt64 d)\<lparr>d_spare := sp\<rparr>, snd (readInt64 d))"
  by (simp add: readInt64_def readBytes_inside_view case_prod_beta)

lemma readCStr_inside_view:
  "readCStr (d\<lparr>d_spare := sp\<rparr>) =
     (fst (readCStr d)\<lparr>d_spare := sp\<rparr>, snd (readCStr d))"
  by (simp add: readCStr_def Let_def split: run.splits)

text \<open>
  Claim C5 says that once the framer has narrowed the view to messageLength bytes, no
  read of an extractor reaches a byte at an offset of messageLength or more. The comment
  at the call of \<^verbatim>\<open>truncate\<close> says the same ("only consider current message"), and
  \<^verbatim>\<open>readBytes\<close> and \<^verbatim>\<open>readCStr\<close> stay inside the view. \<^verbatim>\<open>readDocument\<close> does not: its reslice
  is bounded by the capacity. Two buffers that agree on the 30 bytes of a first message,
  an OP_DELETE whose selector declares 5 bytes of which 4 belong to the message, and differ
  in byte 30, the first byte of what follows: the selector decoded for the first message
  differs. In the third buffer byte 30 lies beyond \<^verbatim>\<open>len(s.data)\<close>, in its spare capacity.
\<close>

theorem readDocument_reads_past_message:
  "take 30 [30, 0, 0, 0, 7, 0, 0, 0, 0, 0, 0, 0, 214, 7, 0, 0,
            0, 0, 0, 0, 97, 0, 0, 0, 0, 0, 5, 0, 0, 0, 0 :: byte]
   = take 30 [30, 0, 0, 0, 7, 0, 0, 0, 0, 0, 0, 0, 214, 7, 0, 0,
              0, 0, 0, 0, 97, 0, 0, 0, 0, 0, 5, 0, 0, 0, 1]
   \<and> event (message (fst (mongodbMessageParser bsonSubset jsonSubset []
        \<lparr>data = [30, 0, 0, 0, 7, 0, 0, 0, 0, 0, 0, 0, 214, 7, 0, 0,
                  0, 0, 0, 0, 97, 0, 0, 0, 0, 0, 5, 0, 0, 0, 0],
          data_spare = [], message = zeroMessage\<rparr>))) ''selector'' = Some (EStr ''{}'')
   \<and> event (message (fst (mongodbMessageParser bsonSubset jsonSubset []
        \<lparr>data = [30, 0, 0, 0, 7, 0, 0, 0, 0, 0, 0, 0, 214, 7, 0, 0,
                  0, 0, 0, 0, 97, 0, 0, 0, 0, 0, 5, 0, 0, 0, 1],
          data_spare = [], message = zeroMessage\<rparr>))) ''selector'' = Some (EStr ''null'')
   \<and> event (message (fst (mongodbMessageParser bsonSubset jsonSubset []
        \<lparr>data = [30, 0, 0, 0, 7, 0, 0, 0, 0, 0, 0, 0, 214, 7, 0, 0,
                  0, 0, 0, 0, 97, 0, 0, 0, 0, 0, 5, 0, 0, 0],
          data_spare = [0], message = zeroMessage\<rparr>))) ''selector'' = Some (EStr ''{}'')"
  by code_simp

section \<open>Errors inside an extractor\<close>

text \<open>
  Claim C4 says that the first failing read of an extractor makes it return invalid,
  whatever the later reads do. Each extractor assigns every error to the same variable and
  tests it once, after the last read, and \<^verbatim>\<open>readDocumentStr\<close> replaces the error of
  \<^verbatim>\<open>readDocument\<close> with that of the formatter. An OP_UPDATE message whose selector
  05 00 00 00 01 is rejected by the decoder and whose update 05 00 00 00 00 is the empty
  document is returned as valid, with the selector "null". An OP_INSERT message with an
  empty body does not return at all: the read of the flags fails, and the scan of
  \<^verbatim>\<open>readCStr\<close> then indexes the view at the advanced cursor.
\<close>

theorem extractor_ignores_failed_read:
  "bsonSubset [5, 0, 0, 0, 1] = None
   \<and> snd (readDocument bsonSubset
        \<lparr>d_in = [5, 0, 0, 0, 1], d_spare = [], d_i = 0\<rparr>) = Returns (None, Some UnmarshalError)
   \<and> snd (mongodbMessageParser bsonSubset jsonSubset []
        \<lparr>data = [36, 0, 0, 0, 7, 0, 0, 0, 0, 0, 0, 0, 209, 7, 0, 0,
                  0, 0, 0, 0, 97, 0, 0, 0, 0, 0, 5, 0, 0, 0, 1, 5, 0, 0, 0, 0],
          data_spare = [], message = zeroMessage\<rparr>) = Returns (True, True)
   \<and> event (message (fst (mongodbMessageParser bsonSubset jsonSubset []
        \<lparr>data = [36, 0, 0, 0, 7, 0, 0, 0, 0, 0, 0, 0, 209, 7, 0, 0,
                  0, 0, 0, 0, 97, 0, 0, 0, 0, 0, 5, 0, 0, 0, 1, 5, 0, 0, 0, 0],
          data_spare = [], message = zeroMessage\<rparr>))) ''selector'' = Some (EStr ''null'')
   \<and> snd (mongodbMessageParser bsonSubset jsonSubset []
        \<lparr>data = [16, 0, 0, 0, 7, 0, 0, 0, 0, 0, 0, 0, 210, 7, 0, 0],
          data_spare = [], message = zeroMessage\<rparr>) = Panics"
  by code_simp

section \<open>Reading well-formed fields\<close>

text \<open>
  The reads of a decoder whose remaining view starts with a well-formed field: four or
  eight bytes, a string with its terminator, a document whose prefix is its length.
\<close>

lemma drop_append_bound:
  assumes "drop i xs = b @ rest" and "b \<noteq> []"
  shows "i + length b \<le> length xs"
proof -
  have "length (drop i xs) = length b + length rest" using assms(1) by simp
  then have "length xs - i = length b + length rest" by simp
  moreover have "0 < length b" using assms(2) by simp
  ultimately show ?thesis by linarith
qed

lemma drop_append_rest:
  assumes "drop i xs = b @ rest"
  shows "drop (i + length b) xs = rest"
proof -
  have "drop (i + length b) xs = drop (length b) (drop i xs)" by (simp add: add.commute)
  then show ?thesis using assms by simp
qed

lemma le_uint32_append: "4 \<le> length b \<Longrightarrow> le_uint32 (b @ rest) = le_uint32 b"
  by (auto simp add: le_uint32_def nth_append)

lemma readInt32_at:
  assumes "drop (d_i d) (d_in d) = b @ rest" and "length b = 4"
  shows "readInt32 d = (d\<lparr>d_i := d_i d + 4\<rparr>, le_uint32 b, None)"
proof -
  have "b \<noteq> []" using assms(2) by auto
  from drop_append_bound [OF assms(1) this] assms(2)
  have "d_i d + 4 \<le> length (d_in d)" by simp
  then show ?thesis using assms by (simp add: readInt32_ok le_uint32_append)
qed

lemma readInt64_ok:
  assumes "d_i d + 8 \<le> length (d_in d)"
  shows "fst (readInt64 d) = d\<lparr>d_i := d_i d + 8\<rparr>" and "snd (snd (readInt64 d)) = None"
  using assms by (simp_all add: readInt64_def readBytes_ok)

lemma readInt64_at:
  assumes "drop (d_i d) (d_in d) = b @ rest" and "length b = 8"
  shows "fst (readInt64 d) = d\<lparr>d_i := d_i d + 8\<rparr>" and "snd (snd (readInt64 d)) = None"
proof -
  have "b \<noteq> []" using assms(2) by auto
  from drop_append_bound [OF assms(1) this] assms(2)
  have "d_i d + 8 \<le> length (d_in d)" by simp
  then show "fst (readInt64 d) = d\<lparr>d_i := d_i d + 8\<rparr>" and "snd (snd (readInt64 d)) = None"
    by (simp_all add: readInt64_ok)
qed

lemma cstrScan_finds:
  assumes "drop e xs = name @ 0 # rest" and "0 \<notin> set name"
  shows "cstrScan xs e = Returns (e + length name)"
  using assms
proof (induction name arbitrary: e)
  case Nil
  then have "e < length xs" by (metis drop_eq_Nil list.distinct(1) not_le append_Nil)
  moreover from Nil have "xs ! e = 0" by (metis append_Nil nth_via_drop)
  ultimately show ?case by (subst cstrScan.simps) simp
next
  case (Cons c name)
  then have lt: "e < length xs" by (metis drop_eq_Nil list.distinct(1) not_le append_Cons)
  from Cons.prems have "xs ! e = c" by (metis append_Cons nth_via_drop)
  with Cons.prems have ne: "xs ! e \<noteq> 0" by auto
  have "drop (e + 1) xs = name @ 0 # rest"
    using Cons.prems(1) by (metis Suc_eq_plus1 append_Cons drop_Suc list.sel(3) tl_drop)
  with Cons.IH [of "e + 1"] Cons.prems(2)
  have "cstrScan xs (e + 1) = Returns (e + 1 + length name)" by simp
  with lt ne show ?case by (subst cstrScan.simps) simp
qed

lemma readCStr_at:
  assumes "drop (d_i d) (d_in d) = name @ 0 # rest" and "0 \<notin> set name"
  shows "readCStr d = (d\<lparr>d_i := d_i d + length name + 1\<rparr>, Returns (gostring name, None))"
proof -
  have "name @ 0 # rest \<noteq> []" by simp
  have b: "d_i d + length name + 1 \<le> length (d_in d)"
    using drop_append_bound [of "d_i d" "d_in d" "name @ [0]" rest] assms(1) by simp
  have t: "take (length name) (drop (d_i d) (d_in d)) = name" using assms(1) by simp
  show ?thesis
    using b by (simp add: readCStr_def cstrScan_finds [OF assms] Let_def t)
qed

lemma readDocument_at:
  assumes "drop (d_i d) (d_in d) = b @ rest" and "4 \<le> length b"
    and "le_uint32 b = int (length b)"
  shows "readDocument U d =
     (d\<lparr>d_i := d_i d + length b\<rparr>,
      Returns (case U b of None \<Rightarrow> (None, Some UnmarshalError)
               | Some documentMap \<Rightarrow> (Some documentMap, None)))"
proof -
  have "b \<noteq> []" using assms(2) by auto
  from drop_append_bound [OF assms(1) this]
  have bd: "d_i d + length b \<le> length (d_in d)" .
  have l: "le_uint32 (drop (d_i d) (d_in d)) = int (length b)"
    using assms by (simp add: le_uint32_append)
  have t: "take (length b) (drop (d_i d) (d_in d)) = b"
    using assms(1) by simp
  show ?thesis
    using readDocument_in_capacity [of d U] bd assms(2) by (simp add: l t)
qed

section \<open>The classification of a query\<close>

lemma userCommandLoop_method:
  "method (userCommandLoop (Some kvs) cs m) =
     (let xs = filter (\<lambda>c. c \<in> set (map fst kvs)) cs in if xs = [] then method m else last xs)"
proof (induction cs arbitrary: m)
  case Nil
  then show ?case by simp
next
  case (Cons c cs)
  have p: "lookupM (Some kvs) c = None \<longleftrightarrow> c \<notin> fst ` set kvs"
    by (simp add: lookupM_def map_of_eq_None_iff)
  show ?case
  proof (cases "c \<in> fst ` set kvs")
    case True
    with p have "lookupM (Some kvs) c \<noteq> None" by simp
    with True show ?thesis by (simp add: Cons.IH Let_def)
  next
    case False
    with p have "lookupM (Some kvs) c = None" by simp
    with False show ?thesis by (simp add: Cons.IH Let_def)
  qed
qed

lemma opQueryFinish_result:
  "method (fst (opQueryFinish J cs n (Some kvs) m)) =
     (if HasSuffix n ''.$cmd'' then lastCommand cs kvs else ''find'')"
  "snd (opQueryFinish J cs n (Some kvs) m) = Returns (J (BDoc kvs) \<noteq> None, J (BDoc kvs) \<noteq> None)"
  "event (fst (opQueryFinish J cs n (Some kvs) m)) =
     (event m)(''query'' \<mapsto> EStr (fst (doc2str J (BDoc kvs))))"
proof -
  have e: "event (userCommandLoop q cs m') = event m'" for q m'
    by (rule userCommandLoop_keeps) simp
  show "method (fst (opQueryFinish J cs n (Some kvs) m)) =
     (if HasSuffix n ''.$cmd'' then lastCommand cs kvs else ''find'')"
    by (simp add: opQueryFinish_def Let_def userCommandLoop_method lastCommand_def
        case_prod_beta)
  show "snd (opQueryFinish J cs n (Some kvs) m) = Returns (J (BDoc kvs) \<noteq> None, J (BDoc kvs) \<noteq> None)"
    by (auto simp add: opQueryFinish_def Let_def case_prod_beta doc2str_def ifaceM_def
        split: option.splits)
  show "event (fst (opQueryFinish J cs n (Some kvs) m)) =
     (event m)(''query'' \<mapsto> EStr (fst (doc2str J (BDoc kvs))))"
    by (simp add: opQueryFinish_def Let_def case_prod_beta e ifaceM_def)
qed

text \<open>
  Claim C2, as amended. For every OP_QUERY message whose body is well formed (flags, a
  terminated collection name, numberToSkip, numberToReturn, a query document the decoder
  accepts and, optionally, a well-formed returnFieldsSelector up to the end of the view):
  if the collection name ends with ".$cmd", method is the last entry of the known-command
  list, in the order of that list, that is a top-level key of the query, and
  "otherCommand" when there is none; otherwise method is "find". With one known command
  among the keys, as in {"ismaster":1} against "db.$cmd", that command is the method. The
  extractor returns, valid exactly when the formatter accepts the query.
\<close>

theorem opQueryParse_method:
  assumes w: "drop (d_i d) (d_in d) = flags @ name @ 0 # numberToSkip @ numberToReturn @ q @ sel"
    and f: "length flags = 4" and n: "0 \<notin> set name"
    and s: "length numberToSkip = 4" and r: "length numberToReturn = 4"
    and q: "4 \<le> length q" "le_uint32 q = int (length q)" "U q = Some query"
    and sel: "sel = [] \<or> 4 \<le> length sel \<and> le_uint32 sel = int (length sel)"
  shows "method (fst (opQueryParse U J UserCommands d m)) =
           (if HasSuffix (gostring name) ''.$cmd'' then lastCommand UserCommands query else ''find'')
       \<and> snd (opQueryParse U J UserCommands d m)
           = Returns (J (BDoc query) \<noteq> None, J (BDoc query) \<noteq> None)
       \<and> event (fst (opQueryParse U J UserCommands d m)) ''fullCollectionName''
           = Some (EStr (gostring name))"
proof -
  define d1 where "d1 = d\<lparr>d_i := d_i d + 4\<rparr>"
  define d2 where "d2 = d1\<lparr>d_i := d_i d1 + length name + 1\<rparr>"
  define d3 where "d3 = d2\<lparr>d_i := d_i d2 + 4\<rparr>"
  define d4 where "d4 = d3\<lparr>d_i := d_i d3 + 4\<rparr>"
  define d5 where "d5 = d4\<lparr>d_i := d_i d4 + length q\<rparr>"
  have r1: "readInt32 d = (d1, le_uint32 flags, None)"
    unfolding d1_def by (rule readInt32_at [OF w f])
  have p1: "drop (d_i d1) (d_in d1) = name @ 0 # numberToSkip @ numberToReturn @ q @ sel"
    using drop_append_rest [OF w] f by (simp add: d1_def)
  have r2: "readCStr d1 = (d2, Returns (gostring name, None))"
    unfolding d2_def by (rule readCStr_at [OF p1 n])
  have "drop (d_i d1) (d_in d1) = (name @ [0]) @ numberToSkip @ numberToReturn @ q @ sel"
    using p1 by simp
  from drop_append_rest [OF this]
  have p2: "drop (d_i d2) (d_in d2) = numberToSkip @ numberToReturn @ q @ sel"
    by (simp add: d2_def)
  have r3: "readInt32 d2 = (d3, le_uint32 numberToSkip, None)"
    unfolding d3_def by (rule readInt32_at [OF p2 s])
  have p3: "drop (d_i d3) (d_in d3) = numberToReturn @ q @ sel"
    using drop_append_rest [OF p2] s by (simp add: d3_def)
  have r4: "readInt32 d3 = (d4, le_uint32 numberToReturn, None)"
    unfolding d4_def by (rule readInt32_at [OF p3 r])
  have p4: "drop (d_i d4) (d_in d4) = q @ sel"
    using drop_append_rest [OF p3] r by (simp add: d4_def)
  have r5: "readDocument U d4 = (d5, Returns (Some query, None))"
    unfolding d5_def using readDocument_at [OF p4 q(1,2), of U] q(3) by simp
  have p5: "drop (d_i d5) (d_in d5) = sel"
    using drop_append_rest [OF p4] by (simp add: d5_def)
  define m4 where "m4 = m\<lparr>event := (event m)(''fullCollectionName'' \<mapsto> EStr (gostring name),
      ''numberToSkip'' \<mapsto> EInt (le_uint32 numberToSkip),
      ''numberToReturn'' \<mapsto> EInt (le_uint32 numberToReturn))\<rparr>"
  show ?thesis
  proof (cases "sel = []")
    case True
    with p5 have "\<not> d_i d5 < length (d_in d5)" by simp
    then have "opQueryParse U J UserCommands d m
        = opQueryFinish J UserCommands (gostring name) (Some query) m4"
      by (simp add: opQueryParse_def r1 r2 r3 r4 r5 m4_def)
    then show ?thesis
      by (simp add: opQueryFinish_result m4_def)
  next
    case False
    with p5 have lt: "d_i d5 < length (d_in d5)"
      by (metis drop_eq_Nil not_le)
    from False sel have ws: "4 \<le> length sel" "le_uint32 sel = int (length sel)" by auto
    have "drop (d_i d5) (d_in d5) = sel @ []" using p5 by simp
    from readDocument_at [OF this ws, of U]
    obtain x where r6: "readDocument U d5 = (d5\<lparr>d_i := d_i d5 + length sel\<rparr>, Returns x)"
      by simp
    have "readDocumentStr U J d5 = (d5\<lparr>d_i := d_i d5 + length sel\<rparr>,
        Returns (fst (doc2str J (ifaceM (fst x))), snd (doc2str J (ifaceM (fst x)))))"
      by (cases x) (simp add: readDocumentStr_def r6 case_prod_beta)
    then obtain t e where r7: "readDocumentStr U J d5 = (d5\<lparr>d_i := d_i d5 + length sel\<rparr>, Returns (t, e))"
      by blast
    have "opQueryParse U J UserCommands d m
        = opQueryFinish J UserCommands (gostring name) (Some query)
            (m4\<lparr>event := (event m4)(''returnFieldsSelector'' \<mapsto> EStr t)\<rparr>)"
      using lt by (simp add: opQueryParse_def r1 r2 r3 r4 r5 r7 m4_def)
    then show ?thesis
      by (simp add: opQueryFinish_result m4_def)
  qed
qed

lemma example_decodings:
  "bsonSubset [19, 0, 0, 0, 16, 105, 115, 109, 97, 115, 116, 101, 114, 0, 1, 0, 0, 0, 0]
     = Some [(''ismaster'', BInt 1)]"
  "bsonSubset [14, 0, 0, 0, 16, 97, 103, 101, 0, 5, 0, 0, 0, 0] = Some [(''age'', BInt 5)]"
  "gostring [100, 98, 46, 36, 99, 109, 100] = ''db.$cmd''"
  "gostring [100, 98, 46, 117, 115, 101, 114, 115] = ''db.users''"
  "jsonSubset (BDoc [(''ismaster'', BInt 1)]) \<noteq> None"
  "jsonSubset (BDoc [(''age'', BInt 5)]) \<noteq> None"
  by code_simp+

theorem opQueryParse_method_witness:
  "method (fst (opQueryParse bsonSubset jsonSubset [''count'', ''findAndModify'', ''ismaster'']
      \<lparr>d_in = [55, 0, 0, 0, 7, 0, 0, 0, 0, 0, 0, 0, 212, 7, 0, 0,
                0, 0, 0, 0, 100, 98, 46, 36, 99, 109, 100, 0, 0, 0, 0, 0, 255, 255, 255, 255,
                19, 0, 0, 0, 16, 105, 115, 109, 97, 115, 116, 101, 114, 0, 1, 0, 0, 0, 0],
        d_spare = [], d_i = 16\<rparr> zeroMessage)) = ''ismaster''
   \<and> snd (opQueryParse bsonSubset jsonSubset [''count'', ''findAndModify'', ''ismaster'']
      \<lparr>d_in = [55, 0, 0, 0, 7, 0, 0, 0, 0, 0, 0, 0, 212, 7, 0, 0,
                0, 0, 0, 0, 100, 98, 46, 36, 99, 109, 100, 0, 0, 0, 0, 0, 255, 255, 255, 255,
                19, 0, 0, 0, 16, 105, 115, 109, 97, 115, 116, 101, 114, 0, 1, 0, 0, 0, 0],
        d_spare = [], d_i = 16\<rparr> zeroMessage) = Returns (True, True)
   \<and> method (fst (opQueryParse bsonSubset jsonSubset [''count'', ''findAndModify'', ''ismaster'']
      \<lparr>d_in = [51, 0, 0, 0, 7, 0, 0, 0, 0, 0, 0, 0, 212, 7, 0, 0,
                0, 0, 0, 0, 100, 98, 46, 117, 115, 101, 114, 115, 0, 0, 0, 0, 0, 0, 0, 0, 0,
                14, 0, 0, 0, 16, 97, 103, 101, 0, 5, 0, 0, 0, 0],
        d_spare = [], d_i = 16\<rparr> zeroMessage)) = ''find''"
  using opQueryParse_method [of
      "\<lparr>d_in = [55, 0, 0, 0, 7, 0, 0, 0, 0, 0, 0, 0, 212, 7, 0, 0,
                0, 0, 0, 0, 100, 98, 46, 36, 99, 109, 100, 0, 0, 0, 0, 0, 255, 255, 255, 255,
                19, 0, 0, 0, 16, 105, 115, 109, 97, 115, 116, 101, 114, 0, 1, 0, 0, 0, 0],
        d_spare = [], d_i = 16\<rparr>"
      "[0, 0, 0, 0]" "[100, 98, 46, 36, 99, 109, 100]" "[0, 0, 0, 0]" "[255, 255, 255, 255]"
      "[19, 0, 0, 0, 16, 105, 115, 109, 97, 115, 116, 101, 114, 0, 1, 0, 0, 0, 0]" "[]"
      bsonSubset "[(''ismaster'', BInt 1)]" jsonSubset "[''count'', ''findAndModify'', ''ismaster'']"
      zeroMessage]
    opQueryParse_method [of
      "\<lparr>d_in = [51, 0, 0, 0, 7, 0, 0, 0, 0, 0, 0, 0, 212, 7, 0, 0,
                0, 0, 0, 0, 100, 98, 46, 117, 115, 101, 114, 115, 0, 0, 0, 0, 0, 0, 0, 0, 0,
                14, 0, 0, 0, 16, 97, 103, 101, 0, 5, 0, 0, 0, 0],
        d_spare = [], d_i = 16\<rparr>"
      "[0, 0, 0, 0]" "[100, 98, 46, 117, 115, 101, 114, 115]" "[0, 0, 0, 0]" "[0, 0, 0, 0]"
      "[14, 0, 0, 0, 16, 97, 103, 101, 0, 5, 0, 0, 0, 0]" "[]"
      bsonSubset "[(''age'', BInt 5)]" jsonSubset "[''count'', ''findAndModify'', ''ismaster'']"
      zeroMessage]
  by (simp add: example_decodings le_uint32_def HasSuffix_def lastCommand_def)

text \<open>
  Claim C2 as stated takes the first matching key in the order of the query document. A
  \<^verbatim>\<open>bson.M\<close> has no order, and the loop runs over the known-command list and has no
  \<^verbatim>\<open>break\<close>. Whatever the order of the list, a query with two known commands among its keys
  tells the two readings apart: for a list that names "count" before "ismaster" the query
  {"count":1,"ismaster":1} is classified "ismaster" by the code and "count" by the claim,
  and for a list that names "ismaster" first the query {"ismaster":1,"count":1} is
  classified "count" by the code and "ismaster" by the claim.
\<close>

theorem claimedMethod_counterexample:
  "bsonSubset [30, 0, 0, 0, 16, 99, 111, 117, 110, 116, 0, 1, 0, 0, 0,
               16, 105, 115, 109, 97, 115, 116, 101, 114, 0, 1, 0, 0, 0, 0]
     = Some [(''count'', BInt 1), (''ismaster'', BInt 1)]
   \<and> method (message (fst (mongodbMessageParser bsonSubset jsonSubset
        [''count'', ''findAndModify'', ''ismaster'']
        \<lparr>data = [66, 0, 0, 0, 7, 0, 0, 0, 0, 0, 0, 0, 212, 7, 0, 0,
                  0, 0, 0, 0, 100, 98, 46, 36, 99, 109, 100, 0, 0, 0, 0, 0, 255, 255, 255, 255,
                  30, 0, 0, 0, 16, 99, 111, 117, 110, 116, 0, 1, 0, 0, 0,
                  16, 105, 115, 109, 97, 115, 116, 101, 114, 0, 1, 0, 0, 0, 0],
          data_spare = [], message = zeroMessage\<rparr>))) = ''ismaster''
   \<and> claimedMethod [''count'', ''findAndModify'', ''ismaster''] ''db.$cmd''
        [(''count'', BInt 1), (''ismaster'', BInt 1)] = ''count''
   \<and> bsonSubset [30, 0, 0, 0, 16, 105, 115, 109, 97, 115, 116, 101, 114, 0, 1, 0, 0, 0,
                 16, 99, 111, 117, 110, 116, 0, 1, 0, 0, 0, 0]
     = Some [(''ismaster'', BInt 1), (''count'', BInt 1)]
   \<and> method (message (fst (mongodbMessageParser bsonSubset jsonSubset
        [''ismaster'', ''count'', ''findAndModify'']
        \<lparr>data = [66, 0, 0, 0, 7, 0, 0, 0, 0, 0, 0, 0, 212, 7, 0, 0,
                  0, 0, 0, 0, 100, 98, 46, 36, 99, 109, 100, 0, 0, 0, 0, 0, 255, 255, 255, 255,
                  30, 0, 0, 0, 16, 105, 115, 109, 97, 115, 116, 101, 114, 0, 1, 0, 0, 0,
                  16, 99, 111, 117, 110, 116, 0, 1, 0, 0, 0, 0],
          data_spare = [], message = zeroMessage\<rparr>))) = ''count''
   \<and> claimedMethod [''ismaster'', ''count'', ''findAndModify''] ''db.$cmd''
        [(''ismaster'', BInt 1), (''count'', BInt 1)] = ''ismaster''"
  by code_simp

text \<open>
  The same for every known-command list: two distinct known commands can be put in a
  query, in one order or the other, so that the code and the claim disagree.
\<close>

lemma classification_order:
  assumes "a \<in> set cs" and "b \<in> set cs" and "a \<noteq> b"
  shows "\<exists>kvs. set (map fst kvs) = {a, b} \<and> lastCommand cs kvs \<noteq> claimedMethod cs ''db.$cmd'' kvs"
proof -
  let ?xs = "filter (\<lambda>c. c \<in> {a, b}) cs"
  have ne: "?xs \<noteq> []" using assms(1) by (auto simp add: filter_empty_conv)
  then have "last ?xs \<in> set ?xs" by (rule last_in_set)
  then have l: "last ?xs = a \<or> last ?xs = b" by auto
  have h: "HasSuffix ''db.$cmd'' ''.$cmd''" by (simp add: HasSuffix_def)
  show ?thesis
  proof (cases "last ?xs = b")
    case True
    have "lastCommand cs [(a, BNull), (b, BNull)] = b"
      using ne True by (simp add: lastCommand_def Let_def)
    moreover have "claimedMethod cs ''db.$cmd'' [(a, BNull), (b, BNull)] = a"
      using assms(1) h by (simp add: claimedMethod_def)
    ultimately show ?thesis
      using assms(3) by (intro exI [of _ "[(a, BNull), (b, BNull)]"]) auto
  next
    case False
    with l have la: "last ?xs = a" by simp
    have e: "(\<lambda>c. c = b \<or> c = a) = (\<lambda>c. c = a \<or> c = b)" by auto
    have "lastCommand cs [(b, BNull), (a, BNull)] = a"
      using ne la by (simp add: lastCommand_def Let_def e)
    moreover have "claimedMethod cs ''db.$cmd'' [(b, BNull), (a, BNull)] = b"
      using assms(2) h by (simp add: claimedMethod_def)
    ultimately show ?thesis
      using assms(3) by (intro exI [of _ "[(b, BNull), (a, BNull)]"]) auto
  qed
qed

section \<open>Replies\<close>

lemma opReplyLoop_wellFormed:
  assumes "drop (d_i d) (d_in d) = concat (map fst ds) @ rest"
    and "list_all (wellFormedDoc U) ds"
    and "n = int (k + length ds)" and "k + length ds \<le> length acc"
  shows "opReplyLoop U J n (int k) d m acc err =
     ((d\<lparr>d_i := d_i d + length (concat (map fst ds))\<rparr>,
       if k = 0 then m\<lparr>error := replyError J ds (error m)\<rparr> else m),
      Returns (take k acc @ map (\<lambda>x. canonicalText J (BDoc (snd x))) ds @ drop (k + length ds) acc,
               if ds = [] then err else snd (doc2str J (BDoc (snd (last ds))))))"
  using assms
proof (induction ds arbitrary: k d m acc err)
  case Nil
  then have "\<not> int k < n" by simp
  then show ?case by (simp add: opReplyLoop_done replyError_def)
next
  case (Cons x ds)
  obtain b kvs where x: "x = (b, kvs)" by (cases x)
  from Cons.prems(2) have wfx: "wellFormedDoc U x" and wfs: "list_all (wellFormedDoc U) ds"
    by simp_all
  from wfx x have wf: "4 \<le> length b" "le_uint32 b = int (length b)" "U b = Some kvs"
    by (simp_all add: wellFormedDoc_def)
  from Cons.prems(3) have lt: "int k < n" by simp
  from Cons.prems(1) x have p: "drop (d_i d) (d_in d) = b @ concat (map fst ds) @ rest" by simp
  define d' where "d' = d\<lparr>d_i := d_i d + length b\<rparr>"
  have r: "readDocument U d = (d', Returns (Some kvs, None))"
    unfolding d'_def using readDocument_at [OF p wf(1,2), of U] wf(3) by simp
  have p': "drop (d_i d') (d_in d') = concat (map fst ds) @ rest"
    using drop_append_rest [OF p] by (simp add: d'_def)
  define t where "t = canonicalText J (BDoc kvs)"
  define e where "e = snd (doc2str J (BDoc kvs))"
  define m1 where "m1 = (if k = 0 then m\<lparr>error := replyError J (x # ds) (error m)\<rparr> else m)"
  have kl: "k < length acc" using Cons.prems(4) by simp
  have n': "n = int (Suc k + length ds)" using Cons.prems(3) by simp
  have l': "Suc k + length ds \<le> length (acc[k := t])" using Cons.prems(4) by simp
  have step: "opReplyLoop U J n (int k) d m acc err
      = opReplyLoop U J n (int (Suc k)) d' m1 (acc[k := t]) e"
    by (simp add: opReplyLoop_step [OF lt r] m1_def t_def e_def canonicalText_def ifaceM_def
        lookupM_def replyError_def x add.commute split: option.splits)
  have tk: "take (Suc k) (acc[k := t]) = take k acc @ [t]"
    using kl by (simp add: take_Suc_conv_app_nth)
  have dk: "drop (Suc (k + length ds)) (acc[k := t]) = drop (Suc (k + length ds)) acc"
    by simp
  have la: "(if ds = [] then e else snd (doc2str J (BDoc (snd (last ds)))))
      = snd (doc2str J (BDoc (snd (last (x # ds)))))"
    by (simp add: e_def x)
  have tx: "canonicalText J (BDoc (snd x)) = t" by (simp add: t_def x)
  have ih: "opReplyLoop U J n (int (Suc k)) d' m1 (acc[k := t]) e =
     ((d'\<lparr>d_i := d_i d' + length (concat (map fst ds))\<rparr>, m1),
      Returns (take (Suc k) (acc[k := t]) @ map (\<lambda>x. canonicalText J (BDoc (snd x))) ds
                 @ drop (Suc k + length ds) (acc[k := t]),
               if ds = [] then e else snd (doc2str J (BDoc (snd (last ds))))))"
    using Cons.IH [OF p' wfs n' l', of m1 e] by simp
  have c: "d'\<lparr>d_i := d_i d' + length (concat (map fst ds))\<rparr>
      = d\<lparr>d_i := d_i d + length (concat (map fst (x # ds)))\<rparr>"
    by (simp add: d'_def x add.assoc)
  show ?case
    unfolding step ih c la
    using dk by (simp add: tk tx m1_def)
qed

text \<open>
  The extractor on a well-formed body, for every decoder and every formatter. The text of a
  document or value is \<open>canonicalText\<close>, which is the formatter's output where the
  formatter accepts.
\<close>

lemma opReplyParse_wellFormed:
  assumes w: "drop (d_i d) (d_in d)
        = flags @ cursorId @ startingFrom @ numberReturned @ concat (map fst docs)"
    and f: "length flags = 4" and c: "length cursorId = 8" and s: "length startingFrom = 4"
    and n: "length numberReturned = 4" "le_uint32 numberReturned = int (length docs)"
    and wf: "list_all (wellFormedDoc U) docs"
  shows "event (fst (opReplyParse U J d m)) ''documents''
           = Some (EStrs (map (\<lambda>x. canonicalText J (BDoc (snd x))) docs))
       \<and> event (fst (opReplyParse U J d m)) ''numberReturned'' = Some (EInt (int (length docs)))
       \<and> error (fst (opReplyParse U J d m)) = replyError J docs (error m)
       \<and> method (fst (opReplyParse U J d m)) = method m
       \<and> snd (opReplyParse U J d m)
           = Returns (docs = [] \<or> J (BDoc (snd (last docs))) \<noteq> None,
                      docs = [] \<or> J (BDoc (snd (last docs))) \<noteq> None)"
proof -
  define d1 where "d1 = d\<lparr>d_i := d_i d + 4\<rparr>"
  define d2 where "d2 = d1\<lparr>d_i := d_i d1 + 8\<rparr>"
  define d3 where "d3 = d2\<lparr>d_i := d_i d2 + 4\<rparr>"
  define d4 where "d4 = d3\<lparr>d_i := d_i d3 + 4\<rparr>"
  have r1: "readInt32 d = (d1, le_uint32 flags, None)"
    unfolding d1_def by (rule readInt32_at [OF w f])
  have p1: "drop (d_i d1) (d_in d1) = cursorId @ startingFrom @ numberReturned @ concat (map fst docs)"
    using drop_append_rest [OF w] f by (simp add: d1_def)
  obtain v2 where r2: "readInt64 d1 = (d2, v2, None)"
    unfolding d2_def using readInt64_at [OF p1 c] by (cases "readInt64 d1") auto
  have p2: "drop (d_i d2) (d_in d2) = startingFrom @ numberReturned @ concat (map fst docs)"
    using drop_append_rest [OF p1] c by (simp add: d2_def)
  have r3: "readInt32 d2 = (d3, le_uint32 startingFrom, None)"
    unfolding d3_def by (rule readInt32_at [OF p2 s])
  have p3: "drop (d_i d3) (d_in d3) = numberReturned @ concat (map fst docs)"
    using drop_append_rest [OF p2] s by (simp add: d3_def)
  have r4: "readInt32 d3 = (d4, int (length docs), None)"
    unfolding d4_def using readInt32_at [OF p3 n(1)] n(2) by simp
  have p4: "drop (d_i d4) (d_in d4) = concat (map fst docs) @ []"
    using drop_append_rest [OF p3] n(1) by (simp add: d4_def)
  define m4 where "m4 = m\<lparr>event := (event m)(''cursorId'' \<mapsto> EInt v2,
      ''startingFrom'' \<mapsto> EInt (le_uint32 startingFrom),
      ''numberReturned'' \<mapsto> EInt (int (length docs)))\<rparr>"
  have l: "opReplyLoop U J (int (length docs)) (int 0) d4 m4 (replicate (length docs) []) None =
     ((d4\<lparr>d_i := d_i d4 + length (concat (map fst docs))\<rparr>,
       m4\<lparr>error := replyError J docs (error m4)\<rparr>),
      Returns (map (\<lambda>x. canonicalText J (BDoc (snd x))) docs,
               if docs = [] then None else snd (doc2str J (BDoc (snd (last docs))))))"
    using opReplyLoop_wellFormed [OF p4 wf, of "int (length docs)" 0 "replicate (length docs) []"
        J m4 None]
    by simp
  have v: "(\<exists>y. snd (doc2str J x) = Some y) = (J x = None)"
    "(snd (doc2str J x) = None) = (\<exists>y. J x = Some y)" for x
    by (simp_all add: doc2str_def split: option.splits)
  have "opReplyParse U J d m =
     (m4\<lparr>error := replyError J docs (error m4),
         event := (event m4)(''documents'' \<mapsto> EStrs (map (\<lambda>x. canonicalText J (BDoc (snd x))) docs))\<rparr>,
      Returns (docs = [] \<or> J (BDoc (snd (last docs))) \<noteq> None,
               docs = [] \<or> J (BDoc (snd (last docs))) \<noteq> None))"
    using l by (auto simp add: opReplyParse_def r1 r2 r3 r4 m4_def [symmetric] v Let_def)
  then show ?thesis by (simp add: m4_def)
qed

lemma canonicalText_Some: "J v = Some t \<Longrightarrow> canonicalText J v = t"
  by (simp add: canonicalText_def doc2str_def)

text \<open>
  Claim C3, as amended. For every OP_REPLY message with a well-formed body (flags,
  cursorId, startingFrom, numberReturned and then numberReturned well-formed documents up
  to the end of the view) whose documents, and whose "$err" value if the first document has
  one, the formatter accepts: the extractor stores under "documents" the formatter's texts
  of exactly these numberReturned documents, in wire order; the message-level error is the
  formatter's text of the value under "$err" in the first document when it has that key,
  and is left as it was otherwise, and all documents are collected either way; method is
  left as it was; the extractor returns valid. The error is the text of the value, not
  the value: for the string auth failed it is the JSON string with its quotes.
\<close>

theorem opReplyParse_documents:
  assumes "drop (d_i d) (d_in d)
        = flags @ cursorId @ startingFrom @ numberReturned @ concat (map fst docs)"
    and "length flags = 4" and "length cursorId = 8" and "length startingFrom = 4"
    and "length numberReturned = 4" and "le_uint32 numberReturned = int (length docs)"
    and "list_all (wellFormedDoc U) docs"
    and "formatterAccepts J docs"
  shows "event (fst (opReplyParse U J d m)) ''documents''
           = Some (EStrs (map (\<lambda>x. canonicalText J (BDoc (snd x))) docs))
       \<and> list_all (\<lambda>x. J (BDoc (snd x)) = Some (canonicalText J (BDoc (snd x)))) docs
       \<and> event (fst (opReplyParse U J d m)) ''numberReturned'' = Some (EInt (int (length docs)))
       \<and> error (fst (opReplyParse U J d m)) = replyError J docs (error m)
       \<and> method (fst (opReplyParse U J d m)) = method m
       \<and> snd (opReplyParse U J d m) = Returns (True, True)"
proof -
  note g = opReplyParse_wellFormed [OF assms(1-7), of J m]
  have a: "list_all (\<lambda>x. J (BDoc (snd x)) \<noteq> None) docs"
    using assms(8) by (simp add: formatterAccepts_def)
  have t: "J (BDoc (snd x)) = Some (canonicalText J (BDoc (snd x)))" if "x \<in> set docs" for x
  proof -
    from a that have "J (BDoc (snd x)) \<noteq> None" by (simp add: list_all_iff)
    then obtain s where "J (BDoc (snd x)) = Some s" by blast
    then show ?thesis by (simp add: canonicalText_Some)
  qed
  have l: "docs = [] \<or> J (BDoc (snd (last docs))) \<noteq> None"
  proof (cases "docs = []")
    case True
    then show ?thesis by simp
  next
    case False
    then have "last docs \<in> set docs" by (rule last_in_set)
    with t [of "last docs"] show ?thesis by simp
  qed
  show ?thesis
    using g l t by (simp add: list_all_iff)
qed

lemma example_reply_documents:
  \<open>bsonSubset [27, 0, 0, 0, 2, 36, 101, 114, 114, 0, 12, 0, 0, 0,
                97, 117, 116, 104, 32, 102, 97, 105, 108, 101, 100, 0, 0]
     = Some [(''$err'', BStr ''auth failed'')]\<close>
  \<open>bsonSubset [15, 0, 0, 0, 16, 99, 111, 100, 101, 0, 18, 0, 0, 0, 0] = Some [(''code'', BInt 18)]\<close>
  \<open>jsonSubset (BDoc [(''$err'', BStr ''auth failed'')]) = Some ''{"$err":"auth failed"}''\<close>
  \<open>jsonSubset (BDoc [(''code'', BInt 18)]) = Some ''{"code":18}''\<close>
  \<open>jsonSubset (BStr ''auth failed'') = Some ''"auth failed"''\<close>
  by code_simp+

theorem opReplyParse_documents_witness:
  \<open>event (fst (opReplyParse bsonSubset jsonSubset
      \<lparr>d_in = [78, 0, 0, 0, 9, 0, 0, 0, 7, 0, 0, 0, 1, 0, 0, 0,
                0, 0, 0, 0, 0, 0, 0, 0, 0, 0, 0, 0, 0, 0, 0, 0, 2, 0, 0, 0,
                27, 0, 0, 0, 2, 36, 101, 114, 114, 0, 12, 0, 0, 0,
                97, 117, 116, 104, 32, 102, 97, 105, 108, 101, 100, 0, 0,
                15, 0, 0, 0, 16, 99, 111, 100, 101, 0, 18, 0, 0, 0, 0],
        d_spare = [], d_i = 16\<rparr> zeroMessage)) ''documents''
     = Some (EStrs [''{"$err":"auth failed"}'', ''{"code":18}''])
   \<and> error (fst (opReplyParse bsonSubset jsonSubset
      \<lparr>d_in = [78, 0, 0, 0, 9, 0, 0, 0, 7, 0, 0, 0, 1, 0, 0, 0,
                0, 0, 0, 0, 0, 0, 0, 0, 0, 0, 0, 0, 0, 0, 0, 0, 2, 0, 0, 0,
                27, 0, 0, 0, 2, 36, 101, 114, 114, 0, 12, 0, 0, 0,
                97, 117, 116, 104, 32, 102, 97, 105, 108, 101, 100, 0, 0,
                15, 0, 0, 0, 16, 99, 111, 100, 101, 0, 18, 0, 0, 0, 0],
        d_spare = [], d_i = 16\<rparr> zeroMessage))
     = ''"auth failed"''
   \<and> method (fst (opReplyParse bsonSubset jsonSubset
      \<lparr>d_in = [78, 0, 0, 0, 9, 0, 0, 0, 7, 0, 0, 0, 1, 0, 0, 0,
                0, 0, 0, 0, 0, 0, 0, 0, 0, 0, 0, 0, 0, 0, 0, 0, 2, 0, 0, 0,
                27, 0, 0, 0, 2, 36, 101, 114, 114, 0, 12, 0, 0, 0,
                97, 117, 116, 104, 32, 102, 97, 105, 108, 101, 100, 0, 0,
                15, 0, 0, 0, 16, 99, 111, 100, 101, 0, 18, 0, 0, 0, 0],
        d_spare = [], d_i = 16\<rparr> zeroMessage)) = []
   \<and> snd (opReplyParse bsonSubset jsonSubset
      \<lparr>d_in = [78, 0, 0, 0, 9, 0, 0, 0, 7, 0, 0, 0, 1, 0, 0, 0,
                0, 0, 0, 0, 0, 0, 0, 0, 0, 0, 0, 0, 0, 0, 0, 0, 2, 0, 0, 0,
                27, 0, 0, 0, 2, 36, 101, 114, 114, 0, 12, 0, 0, 0,
                97, 117, 116, 104, 32, 102, 97, 105, 108, 101, 100, 0, 0,
                15, 0, 0, 0, 16, 99, 111, 100, 101, 0, 18, 0, 0, 0, 0],
        d_spare = [], d_i = 16\<rparr> zeroMessage) = Returns (True, True)\<close>
  using opReplyParse_documents [of
      "\<lparr>d_in = [78, 0, 0, 0, 9, 0, 0, 0, 7, 0, 0, 0, 1, 0, 0, 0,
                0, 0, 0, 0, 0, 0, 0, 0, 0, 0, 0, 0, 0, 0, 0, 0, 2, 0, 0, 0,
                27, 0, 0, 0, 2, 36, 101, 114, 114, 0, 12, 0, 0, 0,
                97, 117, 116, 104, 32, 102, 97, 105, 108, 101, 100, 0, 0,
                15, 0, 0, 0, 16, 99, 111, 100, 101, 0, 18, 0, 0, 0, 0],
        d_spare = [], d_i = 16\<rparr>"
      "[0, 0, 0, 0]" "[0, 0, 0, 0, 0, 0, 0, 0]" "[0, 0, 0, 0]" "[2, 0, 0, 0]"
      "[([27, 0, 0, 0, 2, 36, 101, 114, 114, 0, 12, 0, 0, 0,
                97, 117, 116, 104, 32, 102, 97, 105, 108, 101, 100, 0, 0],
         [(''$err'', BStr ''auth failed'')]),
        ([15, 0, 0, 0, 16, 99, 111, 100, 101, 0, 18, 0, 0, 0, 0], [(''code'', BInt 18)])]"
      bsonSubset jsonSubset zeroMessage]
  by (simp add: example_reply_documents wellFormedDoc_def formatterAccepts_def le_uint32_def
      canonicalText_def doc2str_def replyError_def zeroMessage_def del: jsonSubset.simps)

text \<open>
  Claim C3 as stated has the error equal to the value, "auth failed". The code passes the
  value through \<^verbatim>\<open>doc2str\<close>, the formatter it uses for the documents, and \<^verbatim>\<open>json.Marshal\<close>
  writes a string as a JSON string: a complete reply whose first document is
  {"$err":"auth failed"} leaves an error of 13 characters, the 11 of the value between two
  quotes, while both documents are collected.
\<close>

theorem opReplyParse_error_counterexample:
  \<open>bsonSubset [27, 0, 0, 0, 2, 36, 101, 114, 114, 0, 12, 0, 0, 0,
                  97, 117, 116, 104, 32, 102, 97, 105, 108, 101, 100, 0, 0]
     = Some [(''$err'', BStr ''auth failed'')]
   \<and> error (message (fst (mongodbMessageParser bsonSubset jsonSubset []
        \<lparr>data = [78, 0, 0, 0, 9, 0, 0, 0, 7, 0, 0, 0, 1, 0, 0, 0,
                  0, 0, 0, 0, 0, 0, 0, 0, 0, 0, 0, 0, 0, 0, 0, 0, 2, 0, 0, 0,
                  27, 0, 0, 0, 2, 36, 101, 114, 114, 0, 12, 0, 0, 0,
                  97, 117, 116, 104, 32, 102, 97, 105, 108, 101, 100, 0, 0,
                  15, 0, 0, 0, 16, 99, 111, 100, 101, 0, 18, 0, 0, 0, 0],
          data_spare = [], message = zeroMessage\<rparr>))) \<noteq> ''auth failed''
   \<and> error (message (fst (mongodbMessageParser bsonSubset jsonSubset []
        \<lparr>data = [78, 0, 0, 0, 9, 0, 0, 0, 7, 0, 0, 0, 1, 0, 0, 0,
                  0, 0, 0, 0, 0, 0, 0, 0, 0, 0, 0, 0, 0, 0, 0, 0, 2, 0, 0, 0,
                  27, 0, 0, 0, 2, 36, 101, 114, 114, 0, 12, 0, 0, 0,
                  97, 117, 116, 104, 32, 102, 97, 105, 108, 101, 100, 0, 0,
                  15, 0, 0, 0, 16, 99, 111, 100, 101, 0, 18, 0, 0, 0, 0],
          data_spare = [], message = zeroMessage\<rparr>))) = ''"auth failed"''
   \<and> event (message (fst (mongodbMessageParser bsonSubset jsonSubset []
        \<lparr>data = [78, 0, 0, 0, 9, 0, 0, 0, 7, 0, 0, 0, 1, 0, 0, 0,
                  0, 0, 0, 0, 0, 0, 0, 0, 0, 0, 0, 0, 0, 0, 0, 0, 2, 0, 0, 0,
                  27, 0, 0, 0, 2, 36, 101, 114, 114, 0, 12, 0, 0, 0,
                  97, 117, 116, 104, 32, 102, 97, 105, 108, 101, 100, 0, 0,
                  15, 0, 0, 0, 16, 99, 111, 100, 101, 0, 18, 0, 0, 0, 0],
          data_spare = [], message = zeroMessage\<rparr>))) ''documents''
     = Some (EStrs [''{"$err":"auth failed"}'', ''{"code":18}''])\<close>
  by code_simp

end
